theory Spec2Isabelle
  imports Complex_Main "HOL-Library.Multiset" "HOL-Library.Sublist"
begin

section \<open>JavaScript values and text\<close>

text \<open>
  The runtime (the second part of \<^verbatim>\<open>src/src/react-hook-babel-loader.cjs\<close>, from
  the \<^verbatim>\<open>EffectTracker\<close> typedef on) compares dependency values with
  \<^verbatim>\<open>Object.is\<close> and mirrored state with \<^verbatim>\<open>!==\<close>. The two differ on
  \<^verbatim>\<open>NaN\<close> and on the signed zeros, so numbers keep those two values apart from the
  ordinary ones; \<open>JNum 0\<close> is \<^verbatim>\<open>+0\<close>. Objects and functions are references.
  Clock readings (\<^verbatim>\<open>performance.now()\<close>, a double in milliseconds) are reals.
  The elapsed time of an effect body, the one difference of readings that is compared
  with a threshold, is rounded as IEEE subtraction rounds it (\<open>js_minus\<close> below); the
  end of a long-task window is the exact sum of start and duration.
\<close>

datatype jsval =
    JUndefined
  | JNull
  | JBool bool
  | JNum real
  | JNaN
  | JNegZero
  | JStr string
  | JRef nat

text \<open>\<^verbatim>\<open>Object.is(a, b)\<close>: the same value; \<^verbatim>\<open>NaN\<close> is itself, \<^verbatim>\<open>-0\<close> is not \<^verbatim>\<open>+0\<close>.\<close>

definition object_is :: "jsval \<Rightarrow> jsval \<Rightarrow> bool" where
  "object_is a b = (a = b)"

text \<open>\<^verbatim>\<open>a !== b\<close>: \<^verbatim>\<open>NaN\<close> differs from everything, the two zeros are equal.\<close>

fun strict_neq :: "jsval \<Rightarrow> jsval \<Rightarrow> bool" where
  "strict_neq JNaN b = True"
| "strict_neq a JNaN = True"
| "strict_neq JNegZero b = (b \<noteq> JNegZero \<and> b \<noteq> JNum 0)"
| "strict_neq a JNegZero = (a \<noteq> JNum 0)"
| "strict_neq a b = (a \<noteq> b)"

text \<open>\<^verbatim>\<open>arr[i]\<close>: reading past the end of an array gives \<^verbatim>\<open>undefined\<close>.\<close>

definition js_index :: "jsval list \<Rightarrow> nat \<Rightarrow> jsval" where
  "js_index xs i = (if i < length xs then xs ! i else JUndefined)"

text \<open>
  Template literals print counters and rounded durations in decimal. (The exponent
  notation JavaScript switches to from \<open>10\<^sup>2\<^sup>1\<close> on is not modelled.)
\<close>

definition digit_char :: "nat \<Rightarrow> char" where
  "digit_char d = ''0123456789'' ! d"

fun show_nat :: "nat \<Rightarrow> string" where
  "show_nat n = (if n < 10 then [digit_char n] else show_nat (n div 10) @ [digit_char (n mod 10)])"

declare show_nat.simps [simp del]

definition show_int :: "int \<Rightarrow> string" where
  "show_int i = (if i < 0 then ''-'' @ show_nat (nat (- i)) else show_nat (nat i))"

text \<open>\<^verbatim>\<open>Math.round\<close>: to the nearest integer, halves upwards.\<close>

definition math_round :: "real \<Rightarrow> int" where
  "math_round x = \<lfloor>x + 1 / 2\<rfloor>"

text \<open>
  \<^verbatim>\<open>a - b\<close> on doubles is the exact difference rounded to the nearest double, a tie
  going to the even significand. A double other than zero is
  \<open>m \<times> 2\<^sup>e\<^sup>-\<^sup>5\<^sup>2\<close> with an integer \<open>m\<close>, where \<open>e\<close> runs from \<open>-1022\<close> to
  \<open>1023\<close> and \<open>2\<^sup>5\<^sup>2 \<le> \<bar>m\<bar> < 2\<^sup>5\<^sup>3\<close>, or \<open>e = -1022\<close> and \<open>\<bar>m\<bar> < 2\<^sup>5\<^sup>2\<close> (the
  subnormal numbers). \<open>double_exponent a\<close> is the \<open>e\<close> of the binade a positive \<open>a\<close>
  lies in, found by stepping up from 0 when \<open>a \<ge> 1\<close> and down from 0 otherwise, within
  that range; rounding then takes the nearest multiple of \<open>2\<^sup>e\<^sup>-\<^sup>5\<^sup>2\<close>. (Overflow to
  \<^verbatim>\<open>Infinity\<close> and the sign of zero are not modelled.)
\<close>

function exp_up :: "real \<Rightarrow> int \<Rightarrow> int" where
  "exp_up a e = (if e < 1023 \<and> 2 powi (e + 1) \<le> a then exp_up a (e + 1) else e)"
  by pat_completeness auto
termination
  by (relation "measure (\<lambda>(a, e). nat (1023 - e))") auto

function exp_down :: "real \<Rightarrow> int \<Rightarrow> int" where
  "exp_down a e = (if - 1022 < e \<and> a < 2 powi e then exp_down a (e - 1) else e)"
  by pat_completeness auto
termination
  by (relation "measure (\<lambda>(a, e). nat (e + 1022))") auto

declare exp_up.simps [simp del]

declare exp_down.simps [simp del]

definition double_exponent :: "real \<Rightarrow> int" where
  "double_exponent a = (if 1 \<le> a then exp_up a 0 else exp_down a 0)"

definition round_half_even :: "real \<Rightarrow> int" where
  "round_half_even y =
     (let f = \<lfloor>y\<rfloor>;
          d = y - of_int f
      in if d < 1 / 2 then f
         else if 1 / 2 < d then f + 1
         else if even f then f else f + 1)"

definition double_round :: "real \<Rightarrow> real" where
  "double_round x =
     (if x = 0 then 0
      else (let q = 2 powi (double_exponent \<bar>x\<bar> - 52)
            in q * of_int (round_half_even (x / q))))"

definition js_minus :: "real \<Rightarrow> real \<Rightarrow> real" where
  "js_minus a b = double_round (a - b)"

text \<open>\<^verbatim>\<open>parts.join(sep)\<close>.\<close>

fun join :: "string \<Rightarrow> string list \<Rightarrow> string" where
  "join sep [] = []"
| "join sep [p] = p"
| "join sep (p # q # ps) = p @ sep @ join sep (q # ps)"

text \<open>The two non-ASCII characters of the group banners, as UTF-8 bytes.\<close>

definition arrow :: string where
  "arrow = [CHR 0xE2, CHR 0x86, CHR 0x92]"

definition em_dash :: string where
  "em_dash = [CHR 0xE2, CHR 0x80, CHR 0x94]"

section \<open>Log entries and the printer\<close>

datatype entry_type = StateChange | EffectRun | SlowEffect

fun type_name :: "entry_type \<Rightarrow> string" where
  "type_name StateChange = ''state-change''"
| "type_name EffectRun = ''effect-run''"
| "type_name SlowEffect = ''slow-effect''"

record LogEntry =
  message :: string
  time :: real
  etype :: entry_type
  location :: string
  countKey :: string

datatype console_call =
    Console_log string
  | Console_info string
  | Console_warn string
  | Console_groupCollapsed string
  | Console_groupEnd

text \<open>\<^verbatim>\<open>printSingle(type, formatted)\<close>: the console method by type.\<close>

fun printSingle :: "entry_type \<Rightarrow> string \<Rightarrow> console_call" where
  "printSingle SlowEffect formatted = Console_warn formatted"
| "printSingle EffectRun formatted = Console_info formatted"
| "printSingle StateChange formatted = Console_log formatted"

text \<open>
  \<^verbatim>\<open>printEntries(entries)\<close>: a first loop counts the entries of each
  \<^verbatim>\<open>countKey\<close> in a \<^verbatim>\<open>Map\<close>, a second prints every entry with its running
  index, shown only when the key's total is above one.
\<close>

fun count_totals :: "LogEntry list \<Rightarrow> (string \<rightharpoonup> nat) \<Rightarrow> (string \<rightharpoonup> nat)" where
  "count_totals [] totals = totals"
| "count_totals (entry # entries) totals =
     count_totals entries
       (totals(countKey entry \<mapsto> (case totals (countKey entry) of None \<Rightarrow> 0 | Some n \<Rightarrow> n) + 1))"

definition format_entry :: "LogEntry \<Rightarrow> nat \<Rightarrow> nat \<Rightarrow> string" where
  "format_entry entry idx tot =
     (let count = (if tot > 1 then '' '' @ show_nat idx @ ''/'' @ show_nat tot else [])
      in ''['' @ type_name (etype entry) @ '']'' @ count @ '' '' @ message entry)"

fun print_loop :: "(string \<rightharpoonup> nat) \<Rightarrow> LogEntry list \<Rightarrow> (string \<rightharpoonup> nat) \<Rightarrow> console_call list" where
  "print_loop totals [] current = []"
| "print_loop totals (entry # entries) current =
     (let idx = (case current (countKey entry) of None \<Rightarrow> 0 | Some n \<Rightarrow> n) + 1;
          tot = (case totals (countKey entry) of None \<Rightarrow> 1 | Some n \<Rightarrow> if n = 0 then 1 else n)
      in printSingle (etype entry) (format_entry entry idx tot)
         # print_loop totals entries (current(countKey entry \<mapsto> idx)))"

definition printEntries :: "LogEntry list \<Rightarrow> console_call list" where
  "printEntries entries = print_loop (count_totals entries Map.empty) entries Map.empty"

section \<open>The log buffer and its drains\<close>

text \<open>
  The partition loop shared by both observers: before the window, inside it (bounds
  included), after it.
\<close>

fun partition_buffer ::
  "real \<Rightarrow> real \<Rightarrow> LogEntry list \<Rightarrow> LogEntry list \<times> LogEntry list \<times> LogEntry list" where
  "partition_buffer winStart winEnd [] = ([], [], [])"
| "partition_buffer winStart winEnd (entry # entries) =
     (case partition_buffer winStart winEnd entries of (before, during, after) \<Rightarrow>
        if time entry < winStart then (entry # before, during, after)
        else if time entry \<le> winEnd then (before, entry # during, after)
        else (before, during, entry # after))"

text \<open>The summary of a group banner: the counts of the two kinds, joined by a comma.\<close>

definition summary_parts :: "LogEntry list \<Rightarrow> string list" where
  "summary_parts during =
     (let stateChanges = length (filter (\<lambda>entry. etype entry = StateChange) during);
          effectRuns = length (filter (\<lambda>entry. etype entry \<noteq> StateChange) during)
      in (if stateChanges > 0 then [show_nat stateChanges @ '' effect'' @ arrow @ ''setState''] else [])
         @ (if effectRuns > 0 then [show_nat effectRuns @ '' other effects''] else []))"

definition print_group :: "string \<Rightarrow> LogEntry list \<Rightarrow> console_call list" where
  "print_group title during =
     (if length during > 0
      then Console_groupCollapsed (title @ '' '' @ em_dash @ '' '' @ join '', '' (summary_parts during))
           # printEntries during @ [Console_groupEnd]
      else [])"


subsection \<open>Module state\<close>

record EffectTracker =
  tk_location :: string
  tk_componentName :: string
  tk_changedDeps :: "string list option"
  tk_depNames :: "string list option"
  tk_stateWasSet :: bool

record meta =
  m_location :: string
  m_componentName :: string
  m_stateName :: string

record tracked =
  t_wrapper :: nat
  t_meta :: meta

text \<open>
  The argument of a state setter is a value or an updater function
  (\<^verbatim>\<open>typeof valueOrUpdater === "function"\<close>); the initial value of a state hook is
  a value or a lazy initialiser. Updaters, initialisers and reducers are pure functions of
  their arguments, as React requires of them.
\<close>

datatype setter_arg = Value jsval | Updater "jsval \<Rightarrow> jsval"

datatype init_arg = InitValue jsval | InitFn "unit \<Rightarrow> jsval"

text \<open>
  The closure of a wrapper built by \<^verbatim>\<open>__trackedUseState\<close>: the raw setter and the
  metadata it captured, and its mutable variable \<^verbatim>\<open>value\<close>. The closure of a
  wrapper built by \<^verbatim>\<open>__trackedUseReducer\<close> captures the reducer of the render that
  built it and the variable \<^verbatim>\<open>trackedState\<close>.
\<close>

record state_closure =
  sc_rawSetState :: nat
  sc_meta :: meta
  sc_value :: jsval

record reducer_closure =
  rc_rawDispatch :: nat
  rc_meta :: meta
  rc_reducer :: "jsval \<Rightarrow> jsval \<Rightarrow> jsval"
  rc_trackedState :: jsval

text \<open>
  Everything the module reads and writes. Objects live in stores indexed by reference:
  the tracker objects built by effect invocations (\<open>trackers\<close>, the global slot
  \<^verbatim>\<open>globalThis.__effectTracker\<close> holds a reference or \<^verbatim>\<open>null\<close>), and the
  wrapper functions with their closures (\<open>stateClosures\<close>, \<open>reducerClosures\<close>), a
  wrapper being identified by its reference. The two \<^verbatim>\<open>WeakMap\<close>s are keyed by the
  identity of the function React returned. \<open>customLogger\<close> says whether
  \<^verbatim>\<open>globalThis.__effectTrackerLogger\<close> is set, \<open>delivered\<close> is what it has been
  called with (it is a sink: it neither throws nor touches the module's state).
  \<open>flushTimer\<close> is true while the timeout is pending. \<open>now\<close> is the clock
  \<^verbatim>\<open>performance.now()\<close> reads. \<open>rawSetStateCalls\<close> and \<open>rawDispatchCalls\<close>
  record the calls forwarded to React, the function called and its argument.
\<close>

record world =
  logBuffer :: "LogEntry list"
  flushTimer :: bool
  console :: "console_call list"
  customLogger :: bool
  delivered :: "string list"
  now :: real
  effectTracker :: "nat option"
  trackers :: "nat \<Rightarrow> EffectTracker"
  nextTracker :: nat
  stateTrackerMap :: "nat \<rightharpoonup> tracked"
  reducerTrackerMap :: "nat \<rightharpoonup> tracked"
  stateClosures :: "nat \<Rightarrow> state_closure"
  reducerClosures :: "nat \<Rightarrow> reducer_closure"
  nextFn :: nat
  rawSetStateCalls :: "(nat \<times> setter_arg) list"
  rawDispatchCalls :: "(nat \<times> jsval) list"

subsection \<open>Logging\<close>

definition scheduleFlush :: "world \<Rightarrow> world" where
  "scheduleFlush w = (if flushTimer w then w else w\<lparr>flushTimer := True\<rparr>)"

text \<open>
  \<^verbatim>\<open>log(message, type, location, countKey)\<close>. The first argument of the model says
  whether the host has a \<^verbatim>\<open>performance\<close> object
  (\<^verbatim>\<open>typeof performance !== "undefined"\<close>), a property of the environment.
\<close>

definition tracer_log :: "bool \<Rightarrow> string \<Rightarrow> entry_type \<Rightarrow> string \<Rightarrow> string \<Rightarrow> world \<Rightarrow> world" where
  "tracer_log hasPerformance msg ty loc key w =
     (if customLogger w then w\<lparr>delivered := delivered w @ [msg]\<rparr>
      else if hasPerformance
      then scheduleFlush
             (w\<lparr>logBuffer := logBuffer w @
                  [\<lparr>message = msg, time = now w, etype = ty, location = loc, countKey = key\<rparr>]\<rparr>)
      else w\<lparr>console := console w @ [printSingle ty msg]\<rparr>)"

text \<open>\<^verbatim>\<open>flushBuffer()\<close>, and the timeout callback that calls it.\<close>

definition flushBuffer :: "world \<Rightarrow> world" where
  "flushBuffer w =
     (let toFlush = filter (\<lambda>entry. etype entry \<noteq> EffectRun) (logBuffer w)
      in w\<lparr>console := console w @ printEntries toFlush, logBuffer := []\<rparr>)"

definition timer_fires :: "world \<Rightarrow> world" where
  "timer_fires w = flushBuffer (w\<lparr>flushTimer := False\<rparr>)"

subsection \<open>The long-task observer\<close>

record PerformanceEntry =
  startTime :: real
  duration :: real

text \<open>The body of the observer's loop, for one task of the list.\<close>

definition longTaskPass :: "PerformanceEntry \<Rightarrow> world \<Rightarrow> world" where
  "longTaskPass task w =
     (let taskStart = startTime task;
          taskEnd = startTime task + duration task
      in case partition_buffer taskStart taskEnd (logBuffer w) of (before, during, after) \<Rightarrow>
           w\<lparr>console := console w @ printEntries before
                @ print_group (''Long Task ('' @ show_int (math_round (duration task)) @ ''ms)'') during,
             logBuffer := after\<rparr>)"

definition longTaskObserver :: "PerformanceEntry list \<Rightarrow> world \<Rightarrow> world" where
  "longTaskObserver tasks w = fold longTaskPass tasks w"

subsection \<open>The interaction observer\<close>

record PerformanceEventTimingLike = PerformanceEntry +
  processingStart :: real
  processingEnd :: real
  interactionId :: "nat option"
  name :: string
  entryType :: string

text \<open>
  The first loop files the reports by interaction identifier in a \<^verbatim>\<open>Map\<close>, which
  keeps its keys in insertion order; \<^verbatim>\<open>!id\<close> holds of a missing identifier and of zero.
\<close>

fun group_push ::
  "nat \<Rightarrow> 'a \<Rightarrow> (nat \<times> 'a list) list \<Rightarrow> (nat \<times> 'a list) list" where
  "group_push k e [] = [(k, [e])]"
| "group_push k e ((k', grp) # rest) =
     (if k' = k then (k', grp @ [e]) # rest else (k', grp) # group_push k e rest)"

fun collect_interactions ::
  "PerformanceEventTimingLike list \<Rightarrow> (nat \<times> PerformanceEventTimingLike list) list
   \<Rightarrow> (nat \<times> PerformanceEventTimingLike list) list" where
  "collect_interactions [] interactions = interactions"
| "collect_interactions (entry # raws) interactions =
     (case interactionId entry of
        None \<Rightarrow> collect_interactions raws interactions
      | Some k \<Rightarrow>
          if k = 0 then collect_interactions raws interactions
          else collect_interactions raws (group_push k entry interactions))"

text \<open>
  \<^verbatim>\<open>entries.reduce((longest, curr) => longest.duration > curr.duration ? longest : curr)\<close>,
  with no initial value: it starts from the first report, and throws on an empty array.
\<close>

fun worst_of :: "PerformanceEventTimingLike list \<Rightarrow> PerformanceEventTimingLike option" where
  "worst_of [] = None"
| "worst_of (first # rest) =
     Some (fold (\<lambda>curr longest. if duration longest > duration curr then longest else curr) rest first)"

text \<open>The body of the second loop, once the worst report of a group is chosen.\<close>

definition inpPass :: "PerformanceEventTimingLike \<Rightarrow> world \<Rightarrow> world" where
  "inpPass worst w =
     (let procStart = processingStart worst;
          procEnd = processingEnd worst
      in case partition_buffer procStart procEnd (logBuffer w) of (before, during, after) \<Rightarrow>
           w\<lparr>console := console w
                @ printEntries (filter (\<lambda>entry. etype entry \<noteq> EffectRun) before)
                @ print_group (''Slow Interaction: '' @ name worst
                     @ '' ('' @ show_int (math_round (duration worst)) @ ''ms)'') during,
             logBuffer := after\<rparr>)"

text \<open>
  The second loop. A group is never empty (lemma \<open>collect_groups_nonempty\<close> below), so
  the \<open>None\<close> branch, where \<^verbatim>\<open>reduce\<close> would throw, is never taken.
\<close>

definition inpGroupPass :: "nat \<times> PerformanceEventTimingLike list \<Rightarrow> world \<Rightarrow> world" where
  "inpGroupPass grp w = (case worst_of (snd grp) of None \<Rightarrow> w | Some worst \<Rightarrow> inpPass worst w)"

definition inpObserver :: "PerformanceEventTimingLike list \<Rightarrow> world \<Rightarrow> world" where
  "inpObserver raws w = fold inpGroupPass (collect_interactions raws []) w"


section \<open>Dependency diffing\<close>

text \<open>
  \<^verbatim>\<open>depNames[i] || `dep[${i}]`\<close>: the name at the position, unless it is missing or
  the empty string.
\<close>

definition dep_name :: "string list \<Rightarrow> nat \<Rightarrow> string" where
  "dep_name names i =
     (if i < length names \<and> names ! i \<noteq> [] then names ! i else ''dep['' @ show_nat i @ '']'')"

text \<open>The \<^verbatim>\<open>for\<close> loop of \<^verbatim>\<open>getChangedDeps\<close>, from index \<open>i\<close> on.\<close>

function changed_from ::
  "jsval list \<Rightarrow> jsval list \<Rightarrow> string list \<Rightarrow> nat \<Rightarrow> string list \<Rightarrow> string list" where
  "changed_from prevDeps currentDeps names i changed =
     (if i < length currentDeps
      then changed_from prevDeps currentDeps names (i + 1)
             (if \<not> object_is (js_index prevDeps i) (currentDeps ! i)
              then changed @ [dep_name names i] else changed)
      else changed)"
  by pat_completeness auto
termination
  by (relation "measure (\<lambda>(prevDeps, currentDeps, names, i, changed). length currentDeps - i)") auto

declare changed_from.simps [simp del]

text \<open>
  \<^verbatim>\<open>getChangedDeps(prevDeps, currentDeps, depNames)\<close>; \<open>None\<close> is
  \<^verbatim>\<open>undefined\<close> for the two lists and \<^verbatim>\<open>null\<close> for the names and the result.
\<close>

definition getChangedDeps ::
  "jsval list option \<Rightarrow> jsval list option \<Rightarrow> string list option \<Rightarrow> string list option" where
  "getChangedDeps prevDeps currentDeps names =
     (case prevDeps of
        None \<Rightarrow> None
      | Some prev \<Rightarrow>
          (case names of
             None \<Rightarrow> None
           | Some ns \<Rightarrow>
               (case currentDeps of
                  None \<Rightarrow> None
                | Some cur \<Rightarrow> Some (changed_from prev cur ns 0 []))))"

section \<open>Tracked hooks\<close>

text \<open>The reason an effect ran, as all three messages word it.\<close>

definition reason_text :: "string list option \<Rightarrow> string" where
  "reason_text changedDeps =
     (case changedDeps of
        None \<Rightarrow> ''it was initially mounted''
      | Some cs \<Rightarrow>
          if length cs = 0 then ''it re-ran (no deps changed detected)''
          else join '', '' cs @ '' changed'')"

definition dquote :: string where
  "dquote = [CHR 0x22]"

text \<open>
  The texts of the three kinds of entry, and the key entries are counted under. The
  hook is named \<^verbatim>\<open>useEffect\<close> in all of them, also for a layout effect.
\<close>

definition count_key :: "string \<Rightarrow> string \<Rightarrow> string" where
  "count_key loc componentName = loc @ '':'' @ componentName"

definition state_change_message :: "string \<Rightarrow> EffectTracker \<Rightarrow> string \<Rightarrow> string" where
  "state_change_message hookName tracker stateName =
     ''useEffect '' @ tk_location tracker @ '' in '' @ tk_componentName tracker
       @ '' changed '' @ hookName @ '' '' @ dquote @ stateName @ dquote
       @ '' because '' @ reason_text (tk_changedDeps tracker)"

definition slow_effect_message :: "string \<Rightarrow> string \<Rightarrow> real \<Rightarrow> string" where
  "slow_effect_message loc componentName elapsed =
     ''Slow effect: useEffect '' @ loc @ '' in '' @ componentName
       @ '' took '' @ show_int (math_round elapsed) @ ''ms''"

definition effect_run_message :: "string \<Rightarrow> string \<Rightarrow> string list option \<Rightarrow> string" where
  "effect_run_message loc componentName changedDeps =
     ''useEffect '' @ loc @ '' in '' @ componentName
       @ '' ran because '' @ reason_text changedDeps"

subsection \<open>State and reducer wrappers\<close>

text \<open>
  \<^verbatim>\<open>__trackedUseState(initialValue, location, componentName, stateName)\<close>. The pair
  \<open>(state, rawSetState)\<close> is what React's \<^verbatim>\<open>useState\<close> returned to this call: the
  current state and the identity of the setter. The result is the pair the hook returns,
  the second component being the reference of the wrapper.
\<close>

definition trackedUseState ::
  "init_arg \<Rightarrow> string \<Rightarrow> string \<Rightarrow> string \<Rightarrow> jsval \<times> nat \<Rightarrow> world \<Rightarrow> (jsval \<times> nat) \<times> world" where
  "trackedUseState initialValue loc componentName stateName useStateResult w =
     (case useStateResult of (state, rawSetState) \<Rightarrow>
        (case stateTrackerMap w rawSetState of
           Some trk \<Rightarrow> ((state, t_wrapper trk), w)
         | None \<Rightarrow>
             (let mt = \<lparr>m_location = loc, m_componentName = componentName, m_stateName = stateName\<rparr>;
                  val = (case initialValue of InitFn f \<Rightarrow> f () | InitValue v \<Rightarrow> v);
                  wrapper = nextFn w;
                  trk = \<lparr>t_wrapper = wrapper, t_meta = mt\<rparr>
              in ((state, wrapper),
                  w\<lparr>nextFn := wrapper + 1,
                    stateClosures := (stateClosures w)
                      (wrapper := \<lparr>sc_rawSetState = rawSetState, sc_meta = mt, sc_value = val\<rparr>),
                    stateTrackerMap := (stateTrackerMap w)(rawSetState \<mapsto> trk)\<rparr>))))"

text \<open>A call of the wrapper with reference \<open>wrapper\<close>.\<close>

definition stateWrapper :: "bool \<Rightarrow> nat \<Rightarrow> setter_arg \<Rightarrow> world \<Rightarrow> world" where
  "stateWrapper hasPerformance wrapper valueOrUpdater w =
     (let cl = stateClosures w wrapper;
          newValue = (case valueOrUpdater of Updater f \<Rightarrow> f (sc_value cl) | Value v \<Rightarrow> v);
          w1 = (case effectTracker w of
                  None \<Rightarrow> w
                | Some a \<Rightarrow>
                    if strict_neq (sc_value cl) newValue
                    then (let tracker = (trackers w a)\<lparr>tk_stateWasSet := True\<rparr>
                          in tracer_log hasPerformance
                               (state_change_message ''useState'' tracker (m_stateName (sc_meta cl)))
                               StateChange (tk_location tracker)
                               (count_key (tk_location tracker) (tk_componentName tracker))
                               (w\<lparr>trackers := (trackers w)(a := tracker)\<rparr>))
                    else w)
      in w1\<lparr>stateClosures := (stateClosures w1)(wrapper := cl\<lparr>sc_value := newValue\<rparr>),
            rawSetStateCalls := rawSetStateCalls w1 @ [(sc_rawSetState cl, valueOrUpdater)]\<rparr>)"

text \<open>
  \<^verbatim>\<open>__trackedUseReducer(reducer, initialArg, init, location, componentName, stateName)\<close>;
  \<open>(state, rawDispatch)\<close> is what React's \<^verbatim>\<open>useReducer\<close> returned, whichever of
  its two forms was called, so \<^verbatim>\<open>initialArg\<close> and \<^verbatim>\<open>init\<close> are consumed by React
  alone.
\<close>

definition trackedUseReducer ::
  "(jsval \<Rightarrow> jsval \<Rightarrow> jsval) \<Rightarrow> string \<Rightarrow> string \<Rightarrow> string \<Rightarrow> jsval \<times> nat \<Rightarrow> world
   \<Rightarrow> (jsval \<times> nat) \<times> world" where
  "trackedUseReducer reducer loc componentName stateName useReducerResult w =
     (case useReducerResult of (state, rawDispatch) \<Rightarrow>
        (case reducerTrackerMap w rawDispatch of
           Some trk \<Rightarrow> ((state, t_wrapper trk), w)
         | None \<Rightarrow>
             (let mt = \<lparr>m_location = loc, m_componentName = componentName, m_stateName = stateName\<rparr>;
                  wrapper = nextFn w;
                  trk = \<lparr>t_wrapper = wrapper, t_meta = mt\<rparr>
              in ((state, wrapper),
                  w\<lparr>nextFn := wrapper + 1,
                    reducerClosures := (reducerClosures w)
                      (wrapper := \<lparr>rc_rawDispatch = rawDispatch, rc_meta = mt,
                                   rc_reducer = reducer, rc_trackedState = state\<rparr>),
                    reducerTrackerMap := (reducerTrackerMap w)(rawDispatch \<mapsto> trk)\<rparr>))))"

definition reducerWrapper :: "bool \<Rightarrow> nat \<Rightarrow> jsval \<Rightarrow> world \<Rightarrow> world" where
  "reducerWrapper hasPerformance wrapper action w =
     (let cl = reducerClosures w wrapper;
          nextState = rc_reducer cl (rc_trackedState cl) action;
          w1 = (case effectTracker w of
                  None \<Rightarrow> w
                | Some a \<Rightarrow>
                    if strict_neq (rc_trackedState cl) nextState
                    then (let tracker = (trackers w a)\<lparr>tk_stateWasSet := True\<rparr>
                          in tracer_log hasPerformance
                               (state_change_message ''useReducer'' tracker (m_stateName (rc_meta cl)))
                               StateChange (tk_location tracker)
                               (count_key (tk_location tracker) (tk_componentName tracker))
                               (w\<lparr>trackers := (trackers w)(a := tracker)\<rparr>))
                    else w)
      in w1\<lparr>reducerClosures := (reducerClosures w1)(wrapper := cl\<lparr>rc_trackedState := nextState\<rparr>),
            rawDispatchCalls := rawDispatchCalls w1 @ [(rc_rawDispatch cl, action)]\<rparr>)"

subsection \<open>Effects\<close>

text \<open>
  The two refs of one effect registration, and the function
  \<^verbatim>\<open>trackedEffectImpl\<close> hands to the effect hook; React decides when that function
  runs, and one run of it is \<open>trackedEffectImpl\<close> below. The callback of the component
  is any function of the world that returns a cleanup (\<open>Inr\<close>) or throws (\<open>Inl\<close>):
  it can call wrappers, run for some time, and touch the global slot.
\<close>

record effect_refs =
  prevDepsRef :: "jsval list option"
  isInitialRef :: bool

datatype effect_hook = UseEffect | UseLayoutEffect

type_synonym effect_callback = "world \<Rightarrow> (jsval + jsval) \<times> world"

text \<open>
  The steps of that function. \<open>effect_changedDeps\<close> is its first block: \<^verbatim>\<open>null\<close>
  on the initial run, the diff afterwards, a \<^verbatim>\<open>null\<close> diff read as the empty list.
  \<open>install_tracker\<close> builds the tracker object and stores its reference in the global
  slot. \<open>slow_effect_check\<close> is the block under "Slow effect detection", given the start
  reading; \<open>log_effect_run\<close> the block under "Non-loop effects", given the flag of the
  tracker object.
\<close>

definition effect_changedDeps ::
  "effect_refs \<Rightarrow> jsval list option \<Rightarrow> string list option \<Rightarrow> string list option" where
  "effect_changedDeps refs deps names =
     (if isInitialRef refs then None
      else (case getChangedDeps (prevDepsRef refs) deps names of
              None \<Rightarrow> Some []
            | Some changed \<Rightarrow> Some changed))"

definition install_tracker ::
  "string \<Rightarrow> string \<Rightarrow> string list option \<Rightarrow> string list option \<Rightarrow> world \<Rightarrow> world" where
  "install_tracker loc componentName changedDeps names w =
     w\<lparr>nextTracker := nextTracker w + 1,
       trackers := (trackers w)
         (nextTracker w := \<lparr>tk_location = loc, tk_componentName = componentName,
                            tk_changedDeps = changedDeps, tk_depNames = names,
                            tk_stateWasSet = False\<rparr>),
       effectTracker := Some (nextTracker w)\<rparr>"

definition slow_effect_check :: "bool \<Rightarrow> string \<Rightarrow> string \<Rightarrow> real \<Rightarrow> world \<Rightarrow> world" where
  "slow_effect_check hasPerformance loc componentName start w =
     (if start > 0
      then (let elapsed = js_minus (now w) start
            in if elapsed \<ge> 8
               then tracer_log hasPerformance (slow_effect_message loc componentName elapsed)
                      SlowEffect loc (count_key loc componentName) w
               else w)
      else w)"

definition log_effect_run ::
  "bool \<Rightarrow> string \<Rightarrow> string \<Rightarrow> string list option \<Rightarrow> bool \<Rightarrow> world \<Rightarrow> world" where
  "log_effect_run hasPerformance loc componentName changedDeps stateWasSet w =
     (if \<not> stateWasSet
      then tracer_log hasPerformance (effect_run_message loc componentName changedDeps)
             EffectRun loc (count_key loc componentName) w
      else w)"

text \<open>
  From \<^verbatim>\<open>const previousTracker = globals.__effectTracker\<close> to the end of the
  function: the part that runs once \<^verbatim>\<open>changedDeps\<close> is known. The
  \<^verbatim>\<open>finally\<close> block restores the slot on both exits of the callback; after a throw
  nothing else runs.
\<close>

definition run_tracked ::
  "bool \<Rightarrow> effect_callback \<Rightarrow> string \<Rightarrow> string \<Rightarrow> string list option \<Rightarrow> string list option
   \<Rightarrow> world \<Rightarrow> (jsval + jsval) \<times> world" where
  "run_tracked hasPerformance callback loc componentName changedDeps names w =
     (let previousTracker = effectTracker w;
          a = nextTracker w;
          w1 = install_tracker loc componentName changedDeps names w;
          start = (if hasPerformance then now w1 else 0)
      in case callback w1 of (result, w2) \<Rightarrow>
           (let w3 = w2\<lparr>effectTracker := previousTracker\<rparr>
            in case result of
                 Inl thrown \<Rightarrow> (Inl thrown, w3)
               | Inr cleanup \<Rightarrow>
                   (let w4 = slow_effect_check hasPerformance loc componentName start w3;
                        w5 = log_effect_run hasPerformance loc componentName changedDeps
                               (tk_stateWasSet (trackers w4 a)) w4
                    in (Inr cleanup, w5))))"

definition trackedEffectImpl ::
  "bool \<Rightarrow> effect_hook \<Rightarrow> effect_callback \<Rightarrow> jsval list option \<Rightarrow> string \<Rightarrow> string
   \<Rightarrow> string list option \<Rightarrow> effect_refs \<Rightarrow> world \<Rightarrow> (jsval + jsval) \<times> effect_refs \<times> world" where
  "trackedEffectImpl hasPerformance effectHook callback deps loc componentName names refs w =
     (let changedDeps = effect_changedDeps refs deps names;
          refs' = \<lparr>prevDepsRef = deps, isInitialRef = False\<rparr>
      in case run_tracked hasPerformance callback loc componentName changedDeps names w of
           (result, w') \<Rightarrow> (result, refs', w'))"

definition trackedUseEffect ::
  "bool \<Rightarrow> effect_callback \<Rightarrow> jsval list option \<Rightarrow> string \<Rightarrow> string
   \<Rightarrow> string list option \<Rightarrow> effect_refs \<Rightarrow> world \<Rightarrow> (jsval + jsval) \<times> effect_refs \<times> world" where
  "trackedUseEffect hasPerformance callback deps loc componentName names refs w =
     trackedEffectImpl hasPerformance UseEffect callback deps loc componentName names refs w"

definition trackedUseLayoutEffect ::
  "bool \<Rightarrow> effect_callback \<Rightarrow> jsval list option \<Rightarrow> string \<Rightarrow> string
   \<Rightarrow> string list option \<Rightarrow> effect_refs \<Rightarrow> world \<Rightarrow> (jsval + jsval) \<times> effect_refs \<times> world" where
  "trackedUseLayoutEffect hasPerformance callback deps loc componentName names refs w =
     trackedEffectImpl hasPerformance UseLayoutEffect callback deps loc componentName names refs w"


section \<open>Runs of the module\<close>

text \<open>
  What can happen to the module between two renders: a component calls a tracked hook
  (React supplying the state and the identity of the setter), a wrapper is called, React
  runs a registered effect, an observer delivers a list, the timer fires. The body of an
  effect is itself such a sequence of events, ending in a return or a throw.
\<close>

datatype event =
    RenderState init_arg string string string jsval nat
  | RenderReducer "jsval \<Rightarrow> jsval \<Rightarrow> jsval" string string string jsval nat
  | CallSetter nat setter_arg
  | CallDispatch nat jsval
  | RunEffect effect_hook "jsval list option" string string "string list option" effect_refs
      "event list" "jsval + jsval"
  | Spin real
  | LongTasks "PerformanceEntry list"
  | Interactions "PerformanceEventTimingLike list"
  | TimerFires

fun apply_event :: "bool \<Rightarrow> event \<Rightarrow> world \<Rightarrow> world"
  and apply_events :: "bool \<Rightarrow> event list \<Rightarrow> world \<Rightarrow> world" where
  "apply_event hp (RenderState initialValue loc cn stateName state rawSetState) w =
     snd (trackedUseState initialValue loc cn stateName (state, rawSetState) w)"
| "apply_event hp (RenderReducer reducer loc cn stateName state rawDispatch) w =
     snd (trackedUseReducer reducer loc cn stateName (state, rawDispatch) w)"
| "apply_event hp (CallSetter wrapper valueOrUpdater) w = stateWrapper hp wrapper valueOrUpdater w"
| "apply_event hp (CallDispatch wrapper action) w = reducerWrapper hp wrapper action w"
| "apply_event hp (RunEffect effectHook deps loc cn names refs body result) w =
     snd (snd (trackedEffectImpl hp effectHook (\<lambda>w'. (result, apply_events hp body w'))
                 deps loc cn names refs w))"
| "apply_event hp (Spin ms) w = w\<lparr>now := now w + ms\<rparr>"
| "apply_event hp (LongTasks tasks) w = longTaskObserver tasks w"
| "apply_event hp (Interactions raws) w = inpObserver raws w"
| "apply_event hp TimerFires w = timer_fires w"
| "apply_events hp [] w = w"
| "apply_events hp (e # es) w = apply_events hp es (apply_event hp e w)"

section \<open>Initial state and sample inputs\<close>

text \<open>
  The state of the module once it is loaded: an empty buffer, no timer, no tracker
  (\<^verbatim>\<open>globalThis.__effectTracker\<close> reads as \<^verbatim>\<open>null\<close>), empty caches, the clock at
  100 ms. The effect refs are those \<^verbatim>\<open>useRef(undefined)\<close> and
  \<^verbatim>\<open>useRef(true)\<close> give on the first render.
\<close>

definition no_tracker :: EffectTracker where
  "no_tracker = \<lparr>tk_location = [], tk_componentName = [], tk_changedDeps = None,
                 tk_depNames = None, tk_stateWasSet = False\<rparr>"

definition no_meta :: meta where
  "no_meta = \<lparr>m_location = [], m_componentName = [], m_stateName = []\<rparr>"

definition initial_world :: world where
  "initial_world =
     \<lparr>logBuffer = [], flushTimer = False, console = [], customLogger = False, delivered = [],
      now = 100, effectTracker = None, trackers = (\<lambda>a. no_tracker), nextTracker = 0,
      stateTrackerMap = Map.empty, reducerTrackerMap = Map.empty,
      stateClosures = (\<lambda>f. \<lparr>sc_rawSetState = 0, sc_meta = no_meta, sc_value = JUndefined\<rparr>),
      reducerClosures = (\<lambda>f. \<lparr>rc_rawDispatch = 0, rc_meta = no_meta,
                                 rc_reducer = (\<lambda>s act. s), rc_trackedState = JUndefined\<rparr>),
      nextFn = 0, rawSetStateCalls = [], rawDispatchCalls = []\<rparr>"

definition initial_refs :: effect_refs where
  "initial_refs = \<lparr>prevDepsRef = None, isInitialRef = True\<rparr>"

text \<open>Effect bodies: one that spins for \<open>ms\<close> milliseconds and returns, one that
  spins and then throws.\<close>

definition busy_body :: "real \<Rightarrow> effect_callback" where
  "busy_body ms w = (Inr JUndefined, w\<lparr>now := now w + ms\<rparr>)"

definition throwing_body :: "real \<Rightarrow> jsval \<Rightarrow> effect_callback" where
  "throwing_body ms thrown w = (Inl thrown, w\<lparr>now := now w + ms\<rparr>)"

text \<open>An effect body that calls the state wrapper \<open>wrapper\<close> with a value, and returns.\<close>

definition setting_body :: "bool \<Rightarrow> nat \<Rightarrow> jsval \<Rightarrow> effect_callback" where
  "setting_body hasPerformance wrapper v w =
     (Inr JUndefined, stateWrapper hasPerformance wrapper (Value v) w)"

text \<open>A reducer that takes the action as the next state.\<close>

definition replace_reducer :: "jsval \<Rightarrow> jsval \<Rightarrow> jsval" where
  "replace_reducer s act = act"

text \<open>A buffered entry of each kind, at a given time.\<close>

definition sample_entry :: "entry_type \<Rightarrow> real \<Rightarrow> LogEntry" where
  "sample_entry ty t =
     \<lparr>message = ''m'', time = t, etype = ty, location = ''App.tsx:5'', countKey = ''App.tsx:5:App''\<rparr>"

definition sample_task :: "real \<Rightarrow> real \<Rightarrow> PerformanceEntry" where
  "sample_task s d = \<lparr>startTime = s, duration = d\<rparr>"

definition sample_report :: "nat option \<Rightarrow> string \<Rightarrow> real \<Rightarrow> real \<Rightarrow> real \<Rightarrow> PerformanceEventTimingLike" where
  "sample_report ident nm d ps pe =
     \<lparr>startTime = 0, duration = d, processingStart = ps, processingEnd = pe,
      interactionId = ident, name = nm, entryType = ''event''\<rparr>"

text \<open>What a run has put out: logger deliveries, buffered entries, console calls.\<close>

definition outputs :: "world \<Rightarrow> string list \<times> LogEntry list \<times> console_call list" where
  "outputs w = (delivered w, logBuffer w, console w)"


section \<open>Auxiliary facts\<close>

lemma js_minus_self [simp]: "js_minus a a = 0"
  by (simp add: js_minus_def double_round_def)

lemma double_exponent_12: "double_exponent 12 = 3"
  by (simp add: double_exponent_def exp_up.simps [of 12 0] exp_up.simps [of 12 1]
      exp_up.simps [of 12 2] exp_up.simps [of 12 3])

lemma double_round_12: "double_round 12 = 12"
  by (simp add: double_round_def double_exponent_12 round_half_even_def Let_def)

lemma js_minus_12 [simp]: "js_minus (a + 12) a = 12"
  by (simp add: js_minus_def double_round_12)

lemma double_exponent_threshold:
  "double_exponent (288230376151711731 / 36028797018963968) = 2"
  by (simp add: double_exponent_def
      exp_up.simps [of "288230376151711731 / 36028797018963968" 0]
      exp_up.simps [of "288230376151711731 / 36028797018963968" 1]
      exp_up.simps [of "288230376151711731 / 36028797018963968" 2])

lemma double_round_threshold:
  "double_round (288230376151711731 / 36028797018963968) = 8"
  by (simp add: double_round_def double_exponent_threshold round_half_even_def Let_def)

lemma js_minus_threshold:
  "js_minus (4559894622712627 / 562949953421312) (3602879701896397 / 36028797018963968) = 8"
  "4559894622712627 / 562949953421312 - 3602879701896397 / 36028797018963968 < (8::real)"
  using double_round_threshold by (simp_all add: js_minus_def)

lemma show_nat_digit: "n < 10 \<Longrightarrow> show_nat n = [digit_char n]"
  by (subst show_nat.simps) simp

lemma changed_from_eq:
  "changed_from prev cur ns i acc =
     acc @ map (dep_name ns) (filter (\<lambda>j. \<not> object_is (js_index prev j) (cur ! j)) [i..<length cur])"
proof (induction prev cur ns i acc rule: changed_from.induct)
  case (1 prev cur ns i acc)
  show ?case
  proof (cases "i < length cur")
    case True
    then show ?thesis
      using "1.IH" [OF True] by (subst changed_from.simps) (simp add: upt_conv_Cons)
  next
    case False
    then show ?thesis by (subst changed_from.simps) simp
  qed
qed

lemma getChangedDeps_Some:
  "getChangedDeps (Some prev) (Some cur) (Some ns) =
     Some (map (dep_name ns) (filter (\<lambda>i. \<not> object_is (js_index prev i) (cur ! i)) [0..<length cur]))"
  by (simp add: getChangedDeps_def changed_from_eq)

lemma getChangedDeps_None_iff:
  "getChangedDeps prevDeps currentDeps names = None
     \<longleftrightarrow> prevDeps = None \<or> names = None \<or> currentDeps = None"
  by (simp add: getChangedDeps_def split: option.splits)

lemma tracer_log_slot [simp]:
  "effectTracker (tracer_log hp msg ty loc key w) = effectTracker w"
  "trackers (tracer_log hp msg ty loc key w) = trackers w"
  "now (tracer_log hp msg ty loc key w) = now w"
  "customLogger (tracer_log hp msg ty loc key w) = customLogger w"
  by (simp_all add: tracer_log_def scheduleFlush_def)

lemma tracer_log_caches [simp]:
  "stateTrackerMap (tracer_log hp msg ty loc key w) = stateTrackerMap w"
  "reducerTrackerMap (tracer_log hp msg ty loc key w) = reducerTrackerMap w"
  "stateClosures (tracer_log hp msg ty loc key w) = stateClosures w"
  "reducerClosures (tracer_log hp msg ty loc key w) = reducerClosures w"
  "nextFn (tracer_log hp msg ty loc key w) = nextFn w"
  "nextTracker (tracer_log hp msg ty loc key w) = nextTracker w"
  "rawSetStateCalls (tracer_log hp msg ty loc key w) = rawSetStateCalls w"
  "rawDispatchCalls (tracer_log hp msg ty loc key w) = rawDispatchCalls w"
  by (simp_all add: tracer_log_def scheduleFlush_def)

lemma slow_effect_check_slot [simp]:
  "effectTracker (slow_effect_check hp loc cn start w) = effectTracker w"
  "trackers (slow_effect_check hp loc cn start w) = trackers w"
  by (simp_all add: slow_effect_check_def Let_def)

lemma log_effect_run_slot [simp]:
  "effectTracker (log_effect_run hp loc cn cd flag w) = effectTracker w"
  by (simp add: log_effect_run_def)

lemma install_tracker_fields [simp]:
  "now (install_tracker loc cn cd names w) = now w"
  "effectTracker (install_tracker loc cn cd names w) = Some (nextTracker w)"
  "tk_changedDeps (trackers (install_tracker loc cn cd names w) (nextTracker w)) = cd"
  "tk_stateWasSet (trackers (install_tracker loc cn cd names w) (nextTracker w)) = False"
  by (simp_all add: install_tracker_def)

lemma run_tracked_returns:
  assumes "callback (install_tracker loc cn cd names w) = (Inr cleanup, w2)"
  shows "run_tracked hp callback loc cn cd names w =
    (Inr cleanup,
     log_effect_run hp loc cn cd (tk_stateWasSet (trackers w2 (nextTracker w)))
       (slow_effect_check hp loc cn (if hp then now w else 0)
          (w2\<lparr>effectTracker := effectTracker w\<rparr>)))"
  using assms by (simp add: run_tracked_def Let_def)

lemma run_tracked_throws:
  assumes "callback (install_tracker loc cn cd names w) = (Inl thrown, w2)"
  shows "run_tracked hp callback loc cn cd names w =
    (Inl thrown, w2\<lparr>effectTracker := effectTracker w\<rparr>)"
  using assms by (simp add: run_tracked_def Let_def)

lemma run_tracked_slot:
  "effectTracker (snd (run_tracked hp callback loc cn cd names w)) = effectTracker w"
proof (cases "callback (install_tracker loc cn cd names w)")
  case (Pair result w2)
  then show ?thesis
    by (cases result) (simp_all add: run_tracked_returns run_tracked_throws)
qed

lemma trackedEffectImpl_eq:
  "trackedEffectImpl hp hook callback deps loc cn names refs w =
     (fst (run_tracked hp callback loc cn (effect_changedDeps refs deps names) names w),
      \<lparr>prevDepsRef = deps, isInitialRef = False\<rparr>,
      snd (run_tracked hp callback loc cn (effect_changedDeps refs deps names) names w))"
  by (simp add: trackedEffectImpl_def Let_def split: prod.splits)

lemma tracer_log_outputs_changes: "outputs (tracer_log hp msg ty loc key w) \<noteq> outputs w"
  by (simp add: outputs_def tracer_log_def scheduleFlush_def)

lemma tracer_log_outputs_cong:
  "outputs v = outputs v' \<Longrightarrow> customLogger v = customLogger v' \<Longrightarrow> now v = now v' \<Longrightarrow>
   outputs (tracer_log hp msg ty loc key v) = outputs (tracer_log hp msg ty loc key v')"
  by (simp add: outputs_def tracer_log_def scheduleFlush_def)

lemma reinstated_outputs [simp]:
  "outputs ((install_tracker loc cn cd names v)\<lparr>effectTracker := t\<rparr>) = outputs v"
  "customLogger ((install_tracker loc cn cd names v)\<lparr>effectTracker := t\<rparr>) = customLogger v"
  "now ((install_tracker loc cn cd names v)\<lparr>effectTracker := t\<rparr>) = now v"
  by (simp_all add: outputs_def install_tracker_def)

lemma reason_text_cases:
  "reason_text None = ''it was initially mounted''"
  "reason_text (Some []) = ''it re-ran (no deps changed detected)''"
  "cs \<noteq> [] \<Longrightarrow> reason_text (Some cs) = join '', '' cs @ '' changed''"
  by (simp_all add: reason_text_def)

lemma idle_effect:
  "run_tracked hp (busy_body 0) loc cn cd names v =
     (Inr JUndefined,
      tracer_log hp (effect_run_message loc cn cd) EffectRun loc (count_key loc cn)
        ((install_tracker loc cn cd names v)\<lparr>effectTracker := effectTracker v\<rparr>))"
proof -
  let ?v1 = "install_tracker loc cn cd names v"
  have "busy_body 0 ?v1 = (Inr JUndefined, ?v1)"
    by (simp add: busy_body_def)
  from run_tracked_returns [where callback = "busy_body 0" and hp = hp, OF this] show ?thesis
    by (simp add: log_effect_run_def slow_effect_check_def)
qed

lemma mount_then_change:
  assumes "\<not> object_is x1 x2"
  shows "(let r1 = trackedEffectImpl hp hook (busy_body 0) (Some [x1]) loc cn (Some [''x''])
                    initial_refs w;
             r2 = trackedEffectImpl hp hook (busy_body 0) (Some [x2]) loc cn (Some [''x''])
                    (fst (snd r1)) (snd (snd r1))
         in outputs (snd (snd r2)) =
            outputs (tracer_log hp (effect_run_message loc cn (Some [''x'']))
                       EffectRun loc (count_key loc cn)
                       (tracer_log hp (effect_run_message loc cn None)
                          EffectRun loc (count_key loc cn) w)))"
proof -
  have cd1: "effect_changedDeps initial_refs (Some [x1]) (Some [''x'']) = None"
    by (simp add: effect_changedDeps_def initial_refs_def)
  have cd2: "effect_changedDeps \<lparr>prevDepsRef = Some [x1], isInitialRef = False\<rparr> (Some [x2])
               (Some [''x'']) = Some [''x'']"
    using assms by (simp add: effect_changedDeps_def getChangedDeps_Some js_index_def dep_name_def)
  define W1 where "W1 = tracer_log hp (effect_run_message loc cn None) EffectRun loc
    (count_key loc cn)
    ((install_tracker loc cn None (Some [''x'']) w)\<lparr>effectTracker := effectTracker w\<rparr>)"
  have W1: "outputs W1 = outputs (tracer_log hp (effect_run_message loc cn None) EffectRun loc
      (count_key loc cn) w)"
    unfolding W1_def by (rule tracer_log_outputs_cong) simp_all
  have W1': "customLogger W1 = customLogger w" "now W1 = now w"
    by (simp_all add: W1_def)
  have "outputs (tracer_log hp (effect_run_message loc cn (Some [''x''])) EffectRun loc
           (count_key loc cn)
           ((install_tracker loc cn (Some [''x'']) (Some [''x'']) W1)
              \<lparr>effectTracker := effectTracker W1\<rparr>))
        = outputs (tracer_log hp (effect_run_message loc cn (Some [''x''])) EffectRun loc
           (count_key loc cn)
           (tracer_log hp (effect_run_message loc cn None) EffectRun loc (count_key loc cn) w))"
    by (rule tracer_log_outputs_cong) (simp_all add: W1 W1')
  then show ?thesis
    by (simp add: Let_def trackedEffectImpl_eq cd1 cd2 idle_effect W1_def)
qed

lemma spun_outputs [simp]:
  "outputs ((install_tracker loc cn cd names v)\<lparr>now := n, effectTracker := t\<rparr>) = outputs v"
  "customLogger ((install_tracker loc cn cd names v)\<lparr>now := n, effectTracker := t\<rparr>)
     = customLogger v"
  "now ((install_tracker loc cn cd names v)\<lparr>now := n, effectTracker := t\<rparr>) = n"
  "outputs (v\<lparr>now := n\<rparr>) = outputs v"
  by (simp_all add: outputs_def install_tracker_def)

lemma busy_effect:
  assumes "0 < now v" and "8 \<le> js_minus (now v + ms) (now v)"
  shows "run_tracked True (busy_body ms) loc cn cd names v =
     (Inr JUndefined,
      tracer_log True (effect_run_message loc cn cd) EffectRun loc (count_key loc cn)
        (tracer_log True (slow_effect_message loc cn (js_minus (now v + ms) (now v)))
           SlowEffect loc (count_key loc cn)
           ((install_tracker loc cn cd names v)\<lparr>now := now v + ms, effectTracker := effectTracker v\<rparr>)))"
proof -
  let ?v1 = "install_tracker loc cn cd names v"
  have "busy_body ms ?v1 = (Inr JUndefined, ?v1\<lparr>now := now v + ms\<rparr>)"
    by (simp add: busy_body_def)
  from run_tracked_returns [where callback = "busy_body ms" and hp = True, OF this] assms
  show ?thesis
    by (simp add: log_effect_run_def slow_effect_check_def)
qed

lemma show_nat_12: "show_nat 12 = ''12''"
  by (simp add: show_nat.simps [of 12] show_nat_digit digit_char_def)

lemma slow_effect_message_12:
  "slow_effect_message loc cn 12 = ''Slow effect: useEffect '' @ loc @ '' in '' @ cn @ '' took 12ms''"
  by (simp add: slow_effect_message_def math_round_def show_int_def show_nat_12)

lemma state_change_message_flag [simp]:
  "state_change_message h (tr\<lparr>tk_stateWasSet := b\<rparr>) nm = state_change_message h tr nm"
  by (simp add: state_change_message_def)

lemma tracer_log_outputs_trackers [simp]:
  "outputs (tracer_log hp msg ty loc key (w\<lparr>trackers := ts\<rparr>)) = outputs (tracer_log hp msg ty loc key w)"
  by (simp add: outputs_def tracer_log_def scheduleFlush_def)

lemma outputs_closure_updates [simp]:
  "outputs (w\<lparr>stateClosures := cs, rawSetStateCalls := rs\<rparr>) = outputs w"
  "outputs (w\<lparr>reducerClosures := ds, rawDispatchCalls := qs\<rparr>) = outputs w"
  by (simp_all add: outputs_def)

lemma flushBuffer_caches [simp]:
  "stateTrackerMap (flushBuffer w) = stateTrackerMap w"
  "reducerTrackerMap (flushBuffer w) = reducerTrackerMap w"
  by (simp_all add: flushBuffer_def Let_def)

lemma longTaskPass_caches [simp]:
  "stateTrackerMap (longTaskPass task w) = stateTrackerMap w"
  "reducerTrackerMap (longTaskPass task w) = reducerTrackerMap w"
  by (simp_all add: longTaskPass_def Let_def split: prod.splits)

lemma longTaskObserver_caches [simp]:
  "stateTrackerMap (longTaskObserver tasks w) = stateTrackerMap w"
  "reducerTrackerMap (longTaskObserver tasks w) = reducerTrackerMap w"
  unfolding longTaskObserver_def by (induction tasks arbitrary: w) simp_all

lemma inpGroupPass_caches [simp]:
  "stateTrackerMap (inpGroupPass grp w) = stateTrackerMap w"
  "reducerTrackerMap (inpGroupPass grp w) = reducerTrackerMap w"
  by (simp_all add: inpGroupPass_def inpPass_def Let_def split: prod.splits option.splits)

lemma fold_inpGroupPass_caches [simp]:
  "stateTrackerMap (fold inpGroupPass grps w) = stateTrackerMap w"
  "reducerTrackerMap (fold inpGroupPass grps w) = reducerTrackerMap w"
  by (induction grps arbitrary: w) simp_all

lemma stateWrapper_caches [simp]:
  "stateTrackerMap (stateWrapper hp f arg w) = stateTrackerMap w"
  "reducerTrackerMap (stateWrapper hp f arg w) = reducerTrackerMap w"
  by (simp_all add: stateWrapper_def Let_def split: option.splits)

lemma reducerWrapper_caches [simp]:
  "stateTrackerMap (reducerWrapper hp f act w) = stateTrackerMap w"
  "reducerTrackerMap (reducerWrapper hp f act w) = reducerTrackerMap w"
  by (simp_all add: reducerWrapper_def Let_def split: option.splits)

lemma run_tracked_caches:
  "stateTrackerMap (snd (run_tracked hp callback loc cn cd names w)) =
     stateTrackerMap (snd (callback (install_tracker loc cn cd names w)))"
  "reducerTrackerMap (snd (run_tracked hp callback loc cn cd names w)) =
     reducerTrackerMap (snd (callback (install_tracker loc cn cd names w)))"
  by (simp_all add: run_tracked_def Let_def slow_effect_check_def log_effect_run_def
      split: prod.splits sum.splits)

lemma install_tracker_caches [simp]:
  "stateTrackerMap (install_tracker loc cn cd names w) = stateTrackerMap w"
  "reducerTrackerMap (install_tracker loc cn cd names w) = reducerTrackerMap w"
  by (simp_all add: install_tracker_def)

lemma trackedUseState_keeps:
  "stateTrackerMap w key = Some t \<Longrightarrow>
     stateTrackerMap (snd (trackedUseState i l c n (s, raw) w)) key = Some t"
  "reducerTrackerMap (snd (trackedUseState i l c n (s, raw) w)) = reducerTrackerMap w"
  by (auto simp: trackedUseState_def Let_def split: option.splits)

lemma trackedUseReducer_keeps:
  "reducerTrackerMap w key = Some t \<Longrightarrow>
     reducerTrackerMap (snd (trackedUseReducer r l c n (s, raw) w)) key = Some t"
  "stateTrackerMap (snd (trackedUseReducer r l c n (s, raw) w)) = stateTrackerMap w"
  by (auto simp: trackedUseReducer_def Let_def split: option.splits)

lemma events_keep_caches:
  "(stateTrackerMap w key = Some t \<longrightarrow> stateTrackerMap (apply_event hp e w) key = Some t)
   \<and> (reducerTrackerMap w key' = Some t' \<longrightarrow> reducerTrackerMap (apply_event hp e w) key' = Some t')"
  "(stateTrackerMap w key = Some t \<longrightarrow> stateTrackerMap (apply_events hp es w) key = Some t)
   \<and> (reducerTrackerMap w key' = Some t' \<longrightarrow> reducerTrackerMap (apply_events hp es w) key' = Some t')"
proof (induction hp e w and hp es w rule: apply_event_apply_events.induct)
  case (1 hp initialValue loc cn stateName state rawSetState w)
  then show ?case by (simp add: trackedUseState_keeps)
next
  case (2 hp reducer loc cn stateName state rawDispatch w)
  then show ?case by (simp add: trackedUseReducer_keeps)
next
  case (5 hp effectHook deps loc cn names refs body result w)
  then show ?case
    by (simp add: trackedEffectImpl_eq run_tracked_caches)
next
  case (8 hp raws w)
  then show ?case by (simp add: inpObserver_def)
next
  case (9 hp w)
  then show ?case by (simp add: timer_fires_def)
qed simp_all

lemma partition_buffer_eq:
  "partition_buffer s e buf =
     (filter (\<lambda>x. time x < s) buf,
      filter (\<lambda>x. \<not> time x < s \<and> time x \<le> e) buf,
      filter (\<lambda>x. \<not> time x < s \<and> \<not> time x \<le> e) buf)"
  by (induction buf) auto

lemma length_print_loop: "length (print_loop totals es current) = length es"
  by (induction es arbitrary: current) (simp_all add: Let_def)

lemma length_printEntries: "length (printEntries es) = length es"
  by (simp add: printEntries_def length_print_loop)

lemma format_entry_shape:
  "\<exists>ordinal. format_entry e idx tot =
     ''['' @ type_name (etype e) @ '']'' @ ordinal @ '' '' @ message e"
  by (rule exI [of _ "if tot > 1 then '' '' @ show_nat idx @ ''/'' @ show_nat tot else []"])
    (simp add: format_entry_def)

lemma print_loop_nth:
  "i < length es \<Longrightarrow>
   \<exists>ordinal. print_loop totals es current ! i =
     printSingle (etype (es ! i))
       (''['' @ type_name (etype (es ! i)) @ '']'' @ ordinal @ '' '' @ message (es ! i))"
proof (induction es arbitrary: current i)
  case Nil
  then show ?case by simp
next
  case (Cons e es)
  show ?case
  proof (cases i)
    case 0
    obtain ordinal where "format_entry e
        ((case current (countKey e) of None \<Rightarrow> 0 | Some n \<Rightarrow> n) + 1)
        (case totals (countKey e) of None \<Rightarrow> 1 | Some n \<Rightarrow> if n = 0 then 1 else n) =
      ''['' @ type_name (etype e) @ '']'' @ ordinal @ '' '' @ message e"
      using format_entry_shape by blast
    with 0 show ?thesis
      by (auto simp: Let_def)
  next
    case (Suc j)
    with Cons.prems have "j < length es" by simp
    from Cons.IH [OF this] Suc show ?thesis
      by (simp add: Let_def)
  qed
qed

lemma printEntries_nth:
  "i < length es \<Longrightarrow>
   \<exists>ordinal. printEntries es ! i =
     printSingle (etype (es ! i))
       (''['' @ type_name (etype (es ! i)) @ '']'' @ ordinal @ '' '' @ message (es ! i))"
  unfolding printEntries_def by (rule print_loop_nth)

lemma inpPass_eq:
  "console (inpPass worst w) =
     console w
     @ printEntries (filter (\<lambda>x. etype x \<noteq> EffectRun)
         (filter (\<lambda>x. time x < processingStart worst) (logBuffer w)))
     @ print_group (''Slow Interaction: '' @ name worst
          @ '' ('' @ show_int (math_round (duration worst)) @ ''ms)'')
         (filter (\<lambda>x. \<not> time x < processingStart worst \<and> time x \<le> processingEnd worst)
            (logBuffer w))"
  "logBuffer (inpPass worst w) =
     filter (\<lambda>x. \<not> time x < processingStart worst \<and> \<not> time x \<le> processingEnd worst)
       (logBuffer w)"
  by (simp_all add: inpPass_def Let_def partition_buffer_eq)

lemma longTaskPass_eq:
  "console (longTaskPass task w) =
     console w
     @ printEntries (filter (\<lambda>x. time x < startTime task) (logBuffer w))
     @ print_group (''Long Task ('' @ show_int (math_round (duration task)) @ ''ms)'')
         (filter (\<lambda>x. \<not> time x < startTime task \<and> time x \<le> startTime task + duration task)
            (logBuffer w))"
  "logBuffer (longTaskPass task w) =
     filter (\<lambda>x. \<not> time x < startTime task \<and> \<not> time x \<le> startTime task + duration task)
       (logBuffer w)"
  by (simp_all add: longTaskPass_def Let_def partition_buffer_eq)

lemma flushBuffer_eq:
  "console (flushBuffer w) =
     console w @ printEntries (filter (\<lambda>x. etype x \<noteq> EffectRun) (logBuffer w))"
  "logBuffer (flushBuffer w) = []"
  by (simp_all add: flushBuffer_def Let_def)

lemma mset_three_way:
  "mset (filter (\<lambda>x. P x) xs) + mset (filter (\<lambda>x. \<not> P x \<and> Q x) xs)
     + mset (filter (\<lambda>x. \<not> P x \<and> \<not> Q x) xs) = mset xs"
  by (induction xs) auto

lemma mset_two_way:
  "mset (filter (\<lambda>x. \<not> P x) xs) + mset (filter (\<lambda>x. P x) xs) = mset xs"
  by (induction xs) auto

lemma group_push_keys: "fst ` set (group_push k e G) = insert k (fst ` set G)"
proof (induction G)
  case Nil
  then show ?case by simp
next
  case (Cons p G)
  obtain k' grp where p: "p = (k', grp)"
    by (cases p)
  from Cons show ?case
    unfolding p by (cases "k' = k") auto
qed

lemma group_push_distinct: "distinct (map fst G) \<Longrightarrow> distinct (map fst (group_push k e G))"
proof (induction G)
  case Nil
  then show ?case by simp
next
  case (Cons p G)
  obtain k' grp where p: "p = (k', grp)"
    by (cases p)
  show ?case
  proof (cases "k' = k")
    case True
    with Cons.prems p show ?thesis by simp
  next
    case False
    from Cons have "distinct (map fst (group_push k e G))" by simp
    moreover from Cons.prems p False have "k' \<notin> fst ` set (group_push k e G)"
      by (simp add: group_push_keys)
    ultimately show ?thesis using p False by simp
  qed
qed

lemma absent_key_group:
  "k \<notin> fst ` set G \<Longrightarrow> filter (\<lambda>p. fst p = k) G = []"
  by (induction G) auto

lemma group_push_content:
  "distinct (map fst G) \<Longrightarrow>
   concat (map snd (filter (\<lambda>p. fst p = k') (group_push k e G))) =
     (if k' = k then concat (map snd (filter (\<lambda>p. fst p = k') G)) @ [e]
      else concat (map snd (filter (\<lambda>p. fst p = k') G)))"
proof (induction G)
  case Nil
  then show ?case by simp
next
  case (Cons p G)
  obtain k0 grp where p: "p = (k0, grp)"
    by (cases p)
  show ?case
  proof (cases "k0 = k")
    case True
    with Cons.prems p have "filter (\<lambda>p. fst p = k) G = []"
      by (intro absent_key_group) simp
    with True p show ?thesis by simp
  next
    case False
    with Cons p show ?thesis by auto
  qed
qed

lemma group_push_nonempty:
  "\<forall>p \<in> set G. snd p \<noteq> [] \<Longrightarrow> \<forall>p \<in> set (group_push k e G). snd p \<noteq> []"
proof (induction G)
  case Nil
  then show ?case by simp
next
  case (Cons p G)
  obtain k' grp where p: "p = (k', grp)"
    by (cases p)
  from Cons show ?case
    unfolding p by (cases "k' = k") auto
qed

lemma collect_distinct:
  "distinct (map fst acc) \<Longrightarrow> distinct (map fst (collect_interactions raws acc))"
  by (induction raws arbitrary: acc) (auto simp: group_push_distinct split: option.splits)

lemma collect_nonempty:
  "\<forall>p \<in> set acc. snd p \<noteq> [] \<Longrightarrow> \<forall>p \<in> set (collect_interactions raws acc). snd p \<noteq> []"
proof (induction raws arbitrary: acc)
  case Nil
  then show ?case by simp
next
  case (Cons r raws)
  show ?case
  proof (cases "interactionId r")
    case None
    with Cons show ?thesis by simp
  next
    case (Some k)
    from Cons.prems have "\<forall>p \<in> set (group_push k r acc). snd p \<noteq> []"
      by (rule group_push_nonempty)
    from Cons.IH [OF this] Cons.IH [OF Cons.prems] Some show ?thesis by simp
  qed
qed

lemma collect_groups_nonempty: "p \<in> set (collect_interactions raws []) \<Longrightarrow> snd p \<noteq> []"
  using collect_nonempty [of "[]" raws] by simp

lemma collect_content:
  "distinct (map fst acc) \<Longrightarrow>
   concat (map snd (filter (\<lambda>p. fst p = k) (collect_interactions raws acc))) =
     concat (map snd (filter (\<lambda>p. fst p = k) acc))
     @ filter (\<lambda>r. interactionId r = Some k \<and> k \<noteq> 0) raws"
proof (induction raws arbitrary: acc)
  case Nil
  then show ?case by simp
next
  case (Cons r raws)
  show ?case
  proof (cases "interactionId r")
    case None
    with Cons show ?thesis by simp
  next
    case (Some k')
    show ?thesis
    proof (cases "k' = 0")
      case True
      with Cons Some show ?thesis by auto
    next
      case False
      from Cons.prems have "distinct (map fst (group_push k' r acc))"
        by (rule group_push_distinct)
      from Cons.IH [OF this] Some False Cons.prems show ?thesis
        by (simp add: group_push_content)
    qed
  qed
qed

lemma distinct_key_group:
  "distinct (map fst G) \<Longrightarrow> (k, g) \<in> set G \<Longrightarrow>
   concat (map snd (filter (\<lambda>p. fst p = k) G)) = g"
proof (induction G)
  case Nil
  then show ?case by simp
next
  case (Cons p G)
  show ?case
  proof (cases "p = (k, g)")
    case True
    with Cons.prems(1) have "filter (\<lambda>p. fst p = k) G = []"
      by (intro absent_key_group) simp
    with True show ?thesis by simp
  next
    case False
    with Cons.prems(2) have mem: "(k, g) \<in> set G"
      by simp
    then have "k \<in> fst ` set G"
      by force
    with Cons.prems(1) have "fst p \<noteq> k"
      by auto
    with Cons mem show ?thesis by simp
  qed
qed

lemma collected_group:
  assumes "(k, g) \<in> set (collect_interactions raws [])"
  shows "g = filter (\<lambda>r. interactionId r = Some k) raws" and "k \<noteq> 0" and "g \<noteq> []"
proof -
  have "distinct (map fst (collect_interactions raws []))"
    by (rule collect_distinct) simp
  from distinct_key_group [OF this assms] collect_content [of "[]" k raws]
  have g: "g = filter (\<lambda>r. interactionId r = Some k \<and> k \<noteq> 0) raws"
    by simp
  from collect_groups_nonempty [OF assms] show ne: "g \<noteq> []" by simp
  with g show k: "k \<noteq> 0" by (cases "k = 0") auto
  with g show "g = filter (\<lambda>r. interactionId r = Some k) raws" by simp
qed

lemma collected_keys:
  "fst ` set (collect_interactions raws []) = {k. k \<noteq> 0 \<and> Some k \<in> interactionId ` set raws}"
proof (intro set_eqI iffI)
  fix k
  assume "k \<in> fst ` set (collect_interactions raws [])"
  then obtain g where kg: "(k, g) \<in> set (collect_interactions raws [])"
    by force
  note grp = collected_group [OF kg]
  from grp(3) obtain r where "r \<in> set g"
    by (cases g) auto
  with grp(1) have "r \<in> set raws" "interactionId r = Some k"
    by auto
  with grp(2) show "k \<in> {k. k \<noteq> 0 \<and> Some k \<in> interactionId ` set raws}"
    by force
next
  fix k
  assume "k \<in> {k. k \<noteq> 0 \<and> Some k \<in> interactionId ` set raws}"
  then obtain r where r: "k \<noteq> 0" "r \<in> set raws" "interactionId r = Some k"
    by force
  then have "r \<in> set (filter (\<lambda>r. interactionId r = Some k \<and> k \<noteq> 0) raws)"
    by simp
  then have "filter (\<lambda>r. interactionId r = Some k \<and> k \<noteq> 0) raws \<noteq> []"
    by (metis empty_iff empty_set)
  moreover have "concat (map snd (filter (\<lambda>p. fst p = k) (collect_interactions raws []))) =
      filter (\<lambda>r. interactionId r = Some k \<and> k \<noteq> 0) raws"
    using collect_content [of "[]" k raws] by simp
  ultimately
  have some: "concat (map snd (filter (\<lambda>p. fst p = k) (collect_interactions raws []))) \<noteq> []"
    by simp
  have "filter (\<lambda>p. fst p = k) (collect_interactions raws []) \<noteq> []"
  proof
    assume "filter (\<lambda>p. fst p = k) (collect_interactions raws []) = []"
    then have "concat (map snd (filter (\<lambda>p. fst p = k) (collect_interactions raws []))) = []"
      by simp
    with some show False by contradiction
  qed
  then obtain p where "p \<in> set (collect_interactions raws [])" "fst p = k"
    by (auto simp: filter_empty_conv)
  then show "k \<in> fst ` set (collect_interactions raws [])"
    by force
qed

lemma collect_skips_anonymous:
  "collect_interactions raws acc =
     collect_interactions (filter (\<lambda>r. interactionId r \<noteq> None \<and> interactionId r \<noteq> Some 0) raws) acc"
  by (induction raws arbitrary: acc) (auto split: option.splits)

lemma fold_longest:
  "fold (\<lambda>curr longest. if duration longest > duration curr then longest else curr) rest first
     \<in> set (first # rest)
   \<and> (\<forall>r \<in> set (first # rest).
        duration r \<le> duration (fold (\<lambda>curr longest.
          if duration longest > duration curr then longest else curr) rest first))"
proof (induction rest arbitrary: first)
  case Nil
  then show ?case by simp
next
  case (Cons c rest)
  let ?f = "\<lambda>curr longest. if duration longest > duration curr then longest else (curr::PerformanceEventTimingLike)"
  show ?case
  proof (cases "duration first > duration c")
    case True
    with Cons.IH [of first] show ?thesis by auto
  next
    case False
    with Cons.IH [of c] show ?thesis by auto
  qed
qed

lemma worst_of_greatest:
  "worst_of g = Some x \<Longrightarrow> x \<in> set g \<and> (\<forall>r \<in> set g. duration r \<le> duration x)"
  using fold_longest by (cases g) auto

lemma worst_of_Some: "g \<noteq> [] \<Longrightarrow> \<exists>x. worst_of g = Some x"
  by (cases g) auto

lemma inpGroupPass_fold:
  "inpGroupPass grp w =
     fold inpPass (case worst_of (snd grp) of None \<Rightarrow> [] | Some x \<Rightarrow> [x]) w"
  by (simp add: inpGroupPass_def split: option.splits)

lemma fold_inpGroupPass:
  "fold inpGroupPass G w =
     fold inpPass (concat (map (\<lambda>grp. case worst_of (snd grp) of None \<Rightarrow> [] | Some x \<Rightarrow> [x]) G)) w"
  by (induction G arbitrary: w) (simp_all add: inpGroupPass_fold)

lemma selected_ids:
  "\<forall>p \<in> set G. snd p \<noteq> [] \<and> (\<forall>r \<in> set (snd p). interactionId r = Some (fst p)) \<Longrightarrow>
   map interactionId
     (concat (map (\<lambda>grp. case worst_of (snd grp) of None \<Rightarrow> [] | Some x \<Rightarrow> [x]) G))
   = map (\<lambda>grp. Some (fst grp)) G"
proof (induction G)
  case Nil
  then show ?case by simp
next
  case (Cons p G)
  from Cons.prems have ne: "snd p \<noteq> []" and ids: "\<forall>r \<in> set (snd p). interactionId r = Some (fst p)"
    by simp_all
  from worst_of_Some [OF ne] obtain x where x: "worst_of (snd p) = Some x"
    by blast
  with worst_of_greatest ids have "interactionId x = Some (fst p)"
    by blast
  with x Cons show ?case by simp
qed

lemma collected_groups_wellformed:
  "\<forall>p \<in> set (collect_interactions raws []).
     snd p \<noteq> [] \<and> (\<forall>r \<in> set (snd p). interactionId r = Some (fst p))"
proof
  fix p
  assume p: "p \<in> set (collect_interactions raws [])"
  then have "(fst p, snd p) \<in> set (collect_interactions raws [])"
    by simp
  from collected_group [OF this]
  show "snd p \<noteq> [] \<and> (\<forall>r \<in> set (snd p). interactionId r = Some (fst p))"
    by auto
qed

lemma selected_greatest:
  assumes "x \<in> set (concat (map (\<lambda>grp. case worst_of (snd grp) of None \<Rightarrow> [] | Some x \<Rightarrow> [x])
                        (collect_interactions raws [])))"
  shows "x \<in> set raws
    \<and> (\<forall>r \<in> set raws. interactionId r = interactionId x \<longrightarrow> duration r \<le> duration x)"
proof -
  from assms obtain k g where kg: "(k, g) \<in> set (collect_interactions raws [])"
    and x: "worst_of g = Some x"
    by (auto split: option.splits)
  note grp = collected_group [OF kg]
  from worst_of_greatest [OF x] have mem: "x \<in> set g" and top: "\<forall>r \<in> set g. duration r \<le> duration x"
    by simp_all
  from mem grp(1) have "x \<in> set raws" "interactionId x = Some k"
    by auto
  moreover from this grp(1) top
  have "\<forall>r \<in> set raws. interactionId r = interactionId x \<longrightarrow> duration r \<le> duration x"
    by auto
  ultimately show ?thesis by simp
qed

lemma show_nat_320: "show_nat 320 = ''320''"
  by (simp add: show_nat.simps [of 320] show_nat.simps [of 32] show_nat_digit digit_char_def)

lemma show_nat_1: "show_nat 1 = ''1''" "show_nat (Suc 0) = ''1''"
  by (simp_all add: show_nat_digit digit_char_def)

section \<open>The dependency differ\<close>

text \<open>
  Claim C4, amended. \<open>getChangedDeps\<close> returns \<^verbatim>\<open>null\<close> exactly when the previous
  list is missing, or the list of names is \<^verbatim>\<open>null\<close>, or the current list is
  missing. Otherwise it returns, in order, a name for every position of the current list
  whose value is not the previous value under \<^verbatim>\<open>Object.is\<close> (a position past the
  end of the previous list compares with \<^verbatim>\<open>undefined\<close>): the supplied name, or
  \<^verbatim>\<open>dep[i]\<close> when the name is missing or empty. Diffing \<open>[a, b]\<close> to \<open>[a, c]\<close>
  with names \<open>x, y\<close> gives \<open>[y]\<close>; diffing \<open>[a]\<close> to \<open>[a]\<close> gives \<open>[]\<close>.
\<close>

theorem getChangedDeps_result:
  "(getChangedDeps prevDeps currentDeps names = None
      \<longleftrightarrow> prevDeps = None \<or> names = None \<or> currentDeps = None)
   \<and> getChangedDeps (Some prev) (Some cur) (Some ns) =
       Some (map (dep_name ns)
              (filter (\<lambda>i. \<not> object_is (js_index prev i) (cur ! i)) [0..<length cur]))
   \<and> (i < length ns \<and> ns ! i \<noteq> [] \<longrightarrow> dep_name ns i = ns ! i)
   \<and> (\<not> (i < length ns \<and> ns ! i \<noteq> []) \<longrightarrow> dep_name ns i = ''dep['' @ show_nat i @ '']'')
   \<and> (\<not> object_is b c \<longrightarrow>
        getChangedDeps (Some [a, b]) (Some [a, c]) (Some [''x'', ''y'']) = Some [''y''])
   \<and> getChangedDeps (Some [a]) (Some [a]) (Some ns') = Some []"
proof -
  have two: "[0..<2] = [0, Suc 0]"
    by (simp add: upt_conv_Cons)
  have "\<not> object_is b c \<Longrightarrow>
        getChangedDeps (Some [a, b]) (Some [a, c]) (Some [''x'', ''y'']) = Some [''y'']"
    by (simp add: getChangedDeps_Some two js_index_def object_is_def dep_name_def)
  moreover have "getChangedDeps (Some [a]) (Some [a]) (Some ns') = Some []"
    by (simp add: getChangedDeps_Some js_index_def object_is_def)
  ultimately show ?thesis
    by (simp add: getChangedDeps_None_iff getChangedDeps_Some dep_name_def)
qed

text \<open>The theorem at numbers 1 and 2 under the names \<open>x\<close> and \<open>y\<close>.\<close>

theorem getChangedDeps_result_witness:
  "getChangedDeps (Some [JStr ''a'', JNum 1]) (Some [JStr ''a'', JNum 2]) (Some [''x'', ''y''])
     = Some [''y'']
   \<and> dep_name [''x'', ''y''] 1 = ''y''
   \<and> dep_name [''x'', ''y''] 2 = ''dep[2]''"
  using getChangedDeps_result [of "Some [JStr ''a'']" "Some [JStr ''a'']" "Some [''x'']"
      "[JStr ''a'']" "[JStr ''a'']" "[''x'', ''y'']" 1 "JNum 1" "JNum 2" "JStr ''a''" "[''x'']"]
    getChangedDeps_result [of "Some [JStr ''a'']" "Some [JStr ''a'']" "Some [''x'']"
      "[JStr ''a'']" "[JStr ''a'']" "[''x'', ''y'']" 2 "JNum 1" "JNum 2" "JStr ''a''" "[''x'']"]
  by (simp add: object_is_def show_nat_digit digit_char_def)

text \<open>
  Claim C4 as stated fails: with a previous list present the result is still
  \<^verbatim>\<open>null\<close> when no names were supplied, or when the current list is missing.
\<close>

theorem getChangedDeps_null_with_baseline:
  "getChangedDeps (Some [JNum 1]) (Some [JNum 2]) None = None
   \<and> getChangedDeps (Some [JNum 1]) None (Some [''x'']) = None"
  by (simp add: getChangedDeps_def)

section \<open>Effects without names\<close>

text \<open>
  Claim C10. When the names are \<^verbatim>\<open>null\<close> or the current dependency list is
  missing, \<open>getChangedDeps\<close> returns \<^verbatim>\<open>null\<close> whatever the values are, and on a
  run that is not the initial one \<open>trackedEffectImpl\<close> reads that as the empty list:
  the tracker it installs carries the empty list, the invocation is the one run with the
  empty list, and the reason given is "it re-ran (no deps changed detected)", which is the
  text of the \<open>effect-run\<close> entry of a run that set no state.
\<close>

theorem unnamed_deps_read_as_unchanged:
  assumes "names = None \<or> deps = None" and "\<not> isInitialRef refs"
  shows "getChangedDeps (prevDepsRef refs) deps names = None
    \<and> effect_changedDeps refs deps names = Some []
    \<and> tk_changedDeps (trackers (install_tracker loc cn (effect_changedDeps refs deps names) names w)
         (nextTracker w)) = Some []
    \<and> trackedEffectImpl hp hook callback deps loc cn names refs w =
        (fst (run_tracked hp callback loc cn (Some []) names w),
         \<lparr>prevDepsRef = deps, isInitialRef = False\<rparr>,
         snd (run_tracked hp callback loc cn (Some []) names w))
    \<and> reason_text (effect_changedDeps refs deps names) = ''it re-ran (no deps changed detected)''
    \<and> (callback (install_tracker loc cn (Some []) names w) = (Inr cleanup, w2)
         \<and> \<not> tk_stateWasSet (trackers w2 (nextTracker w)) \<longrightarrow>
       snd (snd (trackedEffectImpl hp hook callback deps loc cn names refs w)) =
         tracer_log hp (effect_run_message loc cn (Some [])) EffectRun loc (count_key loc cn)
           (slow_effect_check hp loc cn (if hp then now w else 0)
              (w2\<lparr>effectTracker := effectTracker w\<rparr>)))
    \<and> effect_run_message loc cn (Some []) =
        ''useEffect '' @ loc @ '' in '' @ cn @ '' ran because it re-ran (no deps changed detected)''"
proof -
  have none: "getChangedDeps (prevDepsRef refs) deps names = None"
    using assms(1) by (auto simp: getChangedDeps_None_iff)
  have cd: "effect_changedDeps refs deps names = Some []"
    using assms(2) none by (simp add: effect_changedDeps_def)
  have reason: "reason_text (Some []) = ''it re-ran (no deps changed detected)''"
    by (simp add: reason_text_def)
  show ?thesis
    by (simp add: none cd reason trackedEffectImpl_eq run_tracked_returns log_effect_run_def
        effect_run_message_def)
qed

text \<open>
  The theorem at a re-run without names whose dependency went from 1 to 2: the console
  shows the effect as re-run with no change detected.
\<close>

theorem unnamed_deps_read_as_unchanged_witness:
  "effect_changedDeps \<lparr>prevDepsRef = Some [JNum 1], isInitialRef = False\<rparr> (Some [JNum 2]) None
     = Some []
   \<and> outputs (snd (snd (trackedEffectImpl False UseEffect (busy_body 0) (Some [JNum 2])
        ''App.tsx:5'' ''App'' None \<lparr>prevDepsRef = Some [JNum 1], isInitialRef = False\<rparr>
        initial_world)))
     = ([], [], [Console_info
          ''useEffect App.tsx:5 in App ran because it re-ran (no deps changed detected)''])"
proof -
  let ?w1 = "install_tracker ''App.tsx:5'' ''App'' (Some []) None initial_world"
  have body: "busy_body 0 ?w1 = (Inr JUndefined, ?w1)
      \<and> \<not> tk_stateWasSet (trackers ?w1 (nextTracker initial_world))"
    by (simp add: busy_body_def)
  have init: "\<not> isInitialRef \<lparr>prevDepsRef = Some [JNum 1], isInitialRef = False\<rparr>"
    by simp
  note th = unnamed_deps_read_as_unchanged [where names = None and deps = "Some [JNum 2]"
      and refs = "\<lparr>prevDepsRef = Some [JNum 1], isInitialRef = False\<rparr>"
      and hp = False and hook = UseEffect and callback = "busy_body 0"
      and loc = "''App.tsx:5''" and cn = "''App''" and w = initial_world
      and cleanup = JUndefined and ?w2.0 = ?w1, OF disjI1 [OF refl] init]
  note cd = th [THEN conjunct2, THEN conjunct1]
  note eq = th [THEN conjunct2, THEN conjunct2, THEN conjunct2, THEN conjunct2, THEN conjunct2,
      THEN conjunct1, THEN mp, OF body]
  show ?thesis
    unfolding eq cd
    by (simp add: outputs_def tracer_log_def slow_effect_check_def install_tracker_def
        initial_world_def effect_run_message_def reason_text_def count_key_def)
qed

section \<open>Context restoration\<close>

text \<open>
  Claim C2. After an invocation through \<open>trackedUseEffect\<close> or
  \<open>trackedUseLayoutEffect\<close>, whatever the callback does and whether it returns or
  throws, the global slot holds what it held before the invocation. When the callback
  throws, the invocation throws the same value, and the world is the one the callback
  left, with the slot restored: nothing is logged, nothing is wrapped or replaced.
\<close>

theorem tracker_restored_error_propagated:
  "effectTracker (snd (snd (trackedUseEffect hp callback deps loc cn names refs w)))
     = effectTracker w
   \<and> effectTracker (snd (snd (trackedUseLayoutEffect hp callback deps loc cn names refs w)))
     = effectTracker w
   \<and> (callback (install_tracker loc cn (effect_changedDeps refs deps names) names w)
        = (Inl thrown, w2) \<longrightarrow>
      trackedUseEffect hp callback deps loc cn names refs w
        = (Inl thrown, \<lparr>prevDepsRef = deps, isInitialRef = False\<rparr>,
           w2\<lparr>effectTracker := effectTracker w\<rparr>)
      \<and> trackedUseLayoutEffect hp callback deps loc cn names refs w
        = (Inl thrown, \<lparr>prevDepsRef = deps, isInitialRef = False\<rparr>,
           w2\<lparr>effectTracker := effectTracker w\<rparr>))"
  by (simp add: trackedUseEffect_def trackedUseLayoutEffect_def trackedEffectImpl_eq
      run_tracked_slot run_tracked_throws)

text \<open>
  The theorem at a body that throws the string \<open>boom\<close> while another tracker (reference 7)
  is current.
\<close>

theorem tracker_restored_error_propagated_witness:
  "fst (trackedUseEffect True (throwing_body 3 (JStr ''boom'')) (Some [JNum 1]) ''App.tsx:5''
         ''App'' (Some [''x'']) initial_refs (initial_world\<lparr>effectTracker := Some 7\<rparr>))
     = Inl (JStr ''boom'')
   \<and> effectTracker (snd (snd (trackedUseEffect True (throwing_body 3 (JStr ''boom''))
        (Some [JNum 1]) ''App.tsx:5'' ''App'' (Some [''x'']) initial_refs
        (initial_world\<lparr>effectTracker := Some 7\<rparr>)))) = Some 7
   \<and> outputs (snd (snd (trackedUseEffect True (throwing_body 3 (JStr ''boom''))
        (Some [JNum 1]) ''App.tsx:5'' ''App'' (Some [''x'']) initial_refs
        (initial_world\<lparr>effectTracker := Some 7\<rparr>)))) = ([], [], [])"
proof -
  let ?w = "initial_world\<lparr>effectTracker := Some 7\<rparr>"
  let ?w1 = "install_tracker ''App.tsx:5'' ''App''
               (effect_changedDeps initial_refs (Some [JNum 1]) (Some [''x''])) (Some [''x'']) ?w"
  have body: "throwing_body 3 (JStr ''boom'') ?w1 = (Inl (JStr ''boom''), ?w1\<lparr>now := now ?w1 + 3\<rparr>)"
    by (simp add: throwing_body_def)
  note th = tracker_restored_error_propagated [where callback = "throwing_body 3 (JStr ''boom'')"
      and deps = "Some [JNum 1]" and loc = "''App.tsx:5''" and cn = "''App''"
      and names = "Some [''x'']" and refs = initial_refs and w = ?w and hp = True
      and thrown = "JStr ''boom''" and ?w2.0 = "?w1\<lparr>now := now ?w1 + 3\<rparr>"]
  note eq = th [THEN conjunct2, THEN conjunct2, THEN mp, OF body, THEN conjunct1]
  show ?thesis
    unfolding eq
    by (simp add: outputs_def install_tracker_def initial_world_def)
qed

section \<open>Entries of an effect invocation\<close>

text \<open>
  Claim C6, amended. After each effect invocation whose body returns, an
  \<open>effect-run\<close> entry is logged if and only if the flag \<open>stateWasSet\<close> of the tracker
  object of this invocation is false; logging an entry always adds to the outputs. The
  text gives as reason "it was initially mounted" on the first run, the changed names
  followed by "changed" when the diff is not empty, and "it re-ran (no deps changed
  detected)" when it is empty or \<^verbatim>\<open>null\<close>. An effect with the dependency \<open>[x]\<close>
  whose body does nothing, run on mount and again once \<open>x\<close> has changed, puts out exactly
  two \<open>effect-run\<close> entries, "initially mounted" and then "x changed".
\<close>

theorem effect_run_entry_iff_no_mutation:
  assumes "callback (install_tracker loc cn (effect_changedDeps refs deps names) names w)
             = (Inr cleanup, w2)"
  shows "snd (snd (trackedEffectImpl hp hook callback deps loc cn names refs w)) =
      (let w4 = slow_effect_check hp loc cn (if hp then now w else 0)
                  (w2\<lparr>effectTracker := effectTracker w\<rparr>)
       in if tk_stateWasSet (trackers w2 (nextTracker w)) then w4
          else tracer_log hp (effect_run_message loc cn (effect_changedDeps refs deps names))
                 EffectRun loc (count_key loc cn) w4)
    \<and> outputs (tracer_log hp msg EffectRun loc key w') \<noteq> outputs w'
    \<and> effect_run_message loc cn (effect_changedDeps refs deps names) =
        ''useEffect '' @ loc @ '' in '' @ cn @ '' ran because '' @
          (if isInitialRef refs then ''it was initially mounted''
           else (case getChangedDeps (prevDepsRef refs) deps names of
                   None \<Rightarrow> ''it re-ran (no deps changed detected)''
                 | Some changed \<Rightarrow>
                     if changed = [] then ''it re-ran (no deps changed detected)''
                     else join '', '' changed @ '' changed''))
    \<and> (\<not> object_is x1 x2 \<longrightarrow>
        (let r1 = trackedEffectImpl hp hook (busy_body 0) (Some [x1]) loc cn (Some [''x''])
                    initial_refs w;
             r2 = trackedEffectImpl hp hook (busy_body 0) (Some [x2]) loc cn (Some [''x''])
                    (fst (snd r1)) (snd (snd r1))
         in outputs (snd (snd r2)) =
            outputs (tracer_log hp (effect_run_message loc cn (Some [''x'']))
                       EffectRun loc (count_key loc cn)
                       (tracer_log hp (effect_run_message loc cn None)
                          EffectRun loc (count_key loc cn) w))))
    \<and> effect_run_message loc cn None =
        ''useEffect '' @ loc @ '' in '' @ cn @ '' ran because it was initially mounted''
    \<and> effect_run_message loc cn (Some [''x'']) =
        ''useEffect '' @ loc @ '' in '' @ cn @ '' ran because x changed''"
proof -
  have reason: "reason_text (effect_changedDeps refs deps names) =
      (if isInitialRef refs then ''it was initially mounted''
       else (case getChangedDeps (prevDepsRef refs) deps names of
               None \<Rightarrow> ''it re-ran (no deps changed detected)''
             | Some changed \<Rightarrow>
                 if changed = [] then ''it re-ran (no deps changed detected)''
                 else join '', '' changed @ '' changed''))"
    by (simp add: reason_text_def effect_changedDeps_def split: option.splits)
  have first: "snd (snd (trackedEffectImpl hp hook callback deps loc cn names refs w)) =
      (let w4 = slow_effect_check hp loc cn (if hp then now w else 0)
                  (w2\<lparr>effectTracker := effectTracker w\<rparr>)
       in if tk_stateWasSet (trackers w2 (nextTracker w)) then w4
          else tracer_log hp (effect_run_message loc cn (effect_changedDeps refs deps names))
                 EffectRun loc (count_key loc cn) w4)"
    using assms by (simp add: trackedEffectImpl_eq run_tracked_returns log_effect_run_def Let_def)
  have full: "effect_run_message loc cn (effect_changedDeps refs deps names) =
        ''useEffect '' @ loc @ '' in '' @ cn @ '' ran because '' @
          (if isInitialRef refs then ''it was initially mounted''
           else (case getChangedDeps (prevDepsRef refs) deps names of
                   None \<Rightarrow> ''it re-ran (no deps changed detected)''
                 | Some changed \<Rightarrow>
                     if changed = [] then ''it re-ran (no deps changed detected)''
                     else join '', '' changed @ '' changed''))"
    unfolding effect_run_message_def reason ..
  have msgs: "effect_run_message loc cn None =
        ''useEffect '' @ loc @ '' in '' @ cn @ '' ran because it was initially mounted''"
    "effect_run_message loc cn (Some [''x'']) =
        ''useEffect '' @ loc @ '' in '' @ cn @ '' ran because x changed''"
    by (simp_all add: effect_run_message_def reason_text_def)
  show ?thesis
    apply (intro conjI impI)
         apply (rule first)
        apply (rule tracer_log_outputs_changes)
       apply (rule full)
      apply (erule mount_then_change)
     apply (rule msgs(1))
    apply (rule msgs(2))
    done
qed

text \<open>
  The theorem at an effect with the dependency \<open>x\<close> whose body does nothing, mounted with
  \<open>x = 1\<close> and run again with \<open>x = 2\<close>, on a host without \<^verbatim>\<open>performance\<close>: the
  console shows one entry after the first run and two after the second.
\<close>

theorem effect_run_entry_iff_no_mutation_witness:
  "outputs (snd (snd (trackedEffectImpl False UseEffect (busy_body 0) (Some [JNum 1])
      ''App.tsx:5'' ''App'' (Some [''x'']) initial_refs initial_world)))
     = ([], [], [Console_info ''useEffect App.tsx:5 in App ran because it was initially mounted''])
   \<and> outputs (snd (snd (trackedEffectImpl False UseEffect (busy_body 0) (Some [JNum 2])
        ''App.tsx:5'' ''App'' (Some [''x''])
        (fst (snd (trackedEffectImpl False UseEffect (busy_body 0) (Some [JNum 1])
           ''App.tsx:5'' ''App'' (Some [''x'']) initial_refs initial_world)))
        (snd (snd (trackedEffectImpl False UseEffect (busy_body 0) (Some [JNum 1])
           ''App.tsx:5'' ''App'' (Some [''x'']) initial_refs initial_world))))))
     = ([], [], [Console_info ''useEffect App.tsx:5 in App ran because it was initially mounted'',
                 Console_info ''useEffect App.tsx:5 in App ran because x changed''])"
proof -
  let ?cd = "effect_changedDeps initial_refs (Some [JNum 1]) (Some [''x''])"
  let ?w1 = "install_tracker ''App.tsx:5'' ''App'' ?cd (Some [''x'']) initial_world"
  have body: "busy_body 0 ?w1 = (Inr JUndefined, ?w1)"
    by (simp add: busy_body_def)
  have ne: "\<not> object_is (JNum 1) (JNum 2)"
    by (simp add: object_is_def)
  note th = effect_run_entry_iff_no_mutation [where callback = "busy_body 0"
      and deps = "Some [JNum 1]" and loc = "''App.tsx:5''" and cn = "''App''"
      and names = "Some [''x'']" and refs = initial_refs and w = initial_world and hp = False
      and hook = UseEffect and cleanup = JUndefined and ?w2.0 = ?w1
      and ?x1.0 = "JNum 1" and ?x2.0 = "JNum 2", OF body]
  note single = th [THEN conjunct1]
  note twice = th [THEN conjunct2, THEN conjunct2, THEN conjunct2, THEN conjunct1, THEN mp, OF ne,
      unfolded Let_def]
  have cd: "?cd = None"
    by (simp add: effect_changedDeps_def initial_refs_def)
  show ?thesis
    apply (subst twice)
    apply (subst single)
    apply (simp add: cd outputs_def tracer_log_def slow_effect_check_def install_tracker_def
        initial_world_def effect_run_message_def reason_text_def count_key_def)
    done
qed

text \<open>
  Claim C6 as stated fails for an invocation whose body throws: the flag is false and no
  \<open>effect-run\<close> entry is put out.
\<close>

theorem throwing_effect_logs_nothing:
  "fst (trackedUseEffect False (throwing_body 0 (JStr ''boom'')) (Some []) ''App.tsx:5'' ''App''
          (Some []) initial_refs initial_world) = Inl (JStr ''boom'')
   \<and> \<not> tk_stateWasSet (trackers (snd (snd (trackedUseEffect False (throwing_body 0 (JStr ''boom''))
          (Some []) ''App.tsx:5'' ''App'' (Some []) initial_refs initial_world))) 0)
   \<and> outputs (snd (snd (trackedUseEffect False (throwing_body 0 (JStr ''boom'')) (Some [])
          ''App.tsx:5'' ''App'' (Some []) initial_refs initial_world))) = ([], [], [])"
  by (simp add: trackedUseEffect_def trackedEffectImpl_def run_tracked_def throwing_body_def
      install_tracker_def initial_world_def outputs_def Let_def)

section \<open>Slow effects\<close>

text \<open>
  Claim C7, amended. On a host with \<^verbatim>\<open>performance\<close>, for an effect invocation
  that starts at a positive clock reading and whose body returns: when the body took at
  least 8 ms, as the code measures it (the reading after the body minus the reading
  before it, in double arithmetic), exactly one \<open>slow-effect\<close> entry is logged, naming
  the rounded duration; whether state was set plays no part in that, it only decides the
  \<open>effect-run\<close> entry logged after it. A body of 12 ms that sets no state puts out one
  \<open>slow-effect\<close> entry and then one \<open>effect-run\<close> entry.
\<close>

theorem slow_effect_entry:
  assumes "0 < now w"
  shows "(callback (install_tracker loc cn (effect_changedDeps refs deps names) names w)
            = (Inr cleanup, w2)
          \<and> 8 \<le> js_minus (now w2) (now w) \<longrightarrow>
        snd (snd (trackedEffectImpl True hook callback deps loc cn names refs w)) =
          log_effect_run True loc cn (effect_changedDeps refs deps names)
            (tk_stateWasSet (trackers w2 (nextTracker w)))
            (tracer_log True (slow_effect_message loc cn (js_minus (now w2) (now w))) SlowEffect
               loc (count_key loc cn) (w2\<lparr>effectTracker := effectTracker w\<rparr>)))
    \<and> outputs (tracer_log True msg SlowEffect loc key w') \<noteq> outputs w'
    \<and> slow_effect_message loc cn elapsed =
        ''Slow effect: useEffect '' @ loc @ '' in '' @ cn @ '' took ''
          @ show_int (math_round elapsed) @ ''ms''
    \<and> outputs (snd (snd (trackedEffectImpl True hook (busy_body 12) deps loc cn names refs w))) =
        outputs (tracer_log True (effect_run_message loc cn (effect_changedDeps refs deps names))
                   EffectRun loc (count_key loc cn)
                   (tracer_log True (slow_effect_message loc cn 12) SlowEffect loc
                      (count_key loc cn) (w\<lparr>now := now w + 12\<rparr>)))
    \<and> slow_effect_message loc cn 12 =
        ''Slow effect: useEffect '' @ loc @ '' in '' @ cn @ '' took 12ms''"
proof -
  have first: "snd (snd (trackedEffectImpl True hook callback deps loc cn names refs w)) =
      log_effect_run True loc cn (effect_changedDeps refs deps names)
        (tk_stateWasSet (trackers w2 (nextTracker w)))
        (tracer_log True (slow_effect_message loc cn (js_minus (now w2) (now w))) SlowEffect loc
           (count_key loc cn) (w2\<lparr>effectTracker := effectTracker w\<rparr>))"
    if "callback (install_tracker loc cn (effect_changedDeps refs deps names) names w)
            = (Inr cleanup, w2)
          \<and> 8 \<le> js_minus (now w2) (now w)"
    using that assms
    by (simp add: trackedEffectImpl_eq run_tracked_returns slow_effect_check_def Let_def)
  have wording: "slow_effect_message loc cn elapsed =
        ''Slow effect: useEffect '' @ loc @ '' in '' @ cn @ '' took ''
          @ show_int (math_round elapsed) @ ''ms''"
    by (simp add: slow_effect_message_def)
  let ?cd = "effect_changedDeps refs deps names"
  have inner: "outputs (tracer_log True (slow_effect_message loc cn 12) SlowEffect loc
                 (count_key loc cn)
                 ((install_tracker loc cn ?cd names w)\<lparr>now := now w + 12, effectTracker := effectTracker w\<rparr>))
      = outputs (tracer_log True (slow_effect_message loc cn 12) SlowEffect loc
                 (count_key loc cn) (w\<lparr>now := now w + 12\<rparr>))"
    by (rule tracer_log_outputs_cong) simp_all
  have measured: "8 \<le> js_minus (now w + 12) (now w)"
    by simp
  have scenario: "outputs (snd (snd (trackedEffectImpl True hook (busy_body 12) deps loc cn names refs w))) =
        outputs (tracer_log True (effect_run_message loc cn ?cd)
                   EffectRun loc (count_key loc cn)
                   (tracer_log True (slow_effect_message loc cn 12) SlowEffect loc
                      (count_key loc cn) (w\<lparr>now := now w + 12\<rparr>)))"
    unfolding trackedEffectImpl_eq snd_conv busy_effect [OF assms measured] js_minus_12
    by (rule tracer_log_outputs_cong) (simp_all add: inner)
  show ?thesis
    apply (intro conjI impI)
        apply (erule first)
       apply (rule tracer_log_outputs_changes)
      apply (rule wording)
     apply (rule scenario)
    apply (rule slow_effect_message_12)
    done
qed

text \<open>
  The theorem at a body that runs from the double nearest 0.1 to the double nearest 8.1,
  with a custom logger: the exact difference of the two readings is below 8, the
  difference in double arithmetic is 8, and the logger receives the slow-effect message
  and then the effect-run message. And at a body of 12 ms that starts at the reading 100.
\<close>

theorem slow_effect_entry_witness:
  "3602879701896397 / 36028797018963968 + 288230376151711731 / 36028797018963968
     = (4559894622712627 / 562949953421312 :: real)
   \<and> outputs (snd (snd (trackedEffectImpl True UseEffect
        (busy_body (288230376151711731 / 36028797018963968)) (Some []) ''App.tsx:5''
        ''App'' (Some []) initial_refs
        (initial_world\<lparr>customLogger := True, now := 3602879701896397 / 36028797018963968\<rparr>))))
     = ([''Slow effect: useEffect App.tsx:5 in App took 8ms'',
         ''useEffect App.tsx:5 in App ran because it was initially mounted''], [], [])
   \<and> outputs (snd (snd (trackedEffectImpl True UseEffect (busy_body 12) (Some []) ''App.tsx:5''
        ''App'' (Some []) initial_refs (initial_world\<lparr>customLogger := True\<rparr>))))
     = ([''Slow effect: useEffect App.tsx:5 in App took 12ms'',
         ''useEffect App.tsx:5 in App ran because it was initially mounted''], [], [])"
proof -
  let ?w = "initial_world\<lparr>customLogger := True, now := 3602879701896397 / 36028797018963968\<rparr>"
  let ?cd = "effect_changedDeps initial_refs (Some []) (Some [])"
  let ?w1 = "install_tracker ''App.tsx:5'' ''App'' ?cd (Some []) ?w"
  let ?w2 = "?w1\<lparr>now := 4559894622712627 / 562949953421312\<rparr>"
  have body: "busy_body (288230376151711731 / 36028797018963968) ?w1 = (Inr JUndefined, ?w2)"
    by (simp add: busy_body_def)
  have pos: "0 < now ?w"
    by simp
  have slow: "8 \<le> js_minus (now ?w2) (now ?w)"
    by (simp add: js_minus_threshold)
  note th = slow_effect_entry [where callback = "busy_body (288230376151711731 / 36028797018963968)"
      and deps = "Some []" and loc = "''App.tsx:5''" and cn = "''App''"
      and names = "Some []" and refs = initial_refs and w = ?w
      and hook = UseEffect and cleanup = JUndefined and ?w2.0 = ?w2, OF pos]
  note run = th [THEN conjunct1, THEN mp, OF conjI [OF body slow]]
  let ?v = "initial_world\<lparr>customLogger := True\<rparr>"
  have pos': "0 < now ?v"
    by (simp add: initial_world_def)
  note th' = slow_effect_entry [where deps = "Some []" and loc = "''App.tsx:5''" and cn = "''App''"
      and names = "Some []" and refs = initial_refs and w = ?v and hook = UseEffect, OF pos']
  note scenario = th' [THEN conjunct2, THEN conjunct2, THEN conjunct2, THEN conjunct1]
  note wording = th' [THEN conjunct2, THEN conjunct2, THEN conjunct2, THEN conjunct2]
  have cd: "?cd = None"
    by (simp add: effect_changedDeps_def initial_refs_def)
  have took: "slow_effect_message ''App.tsx:5'' ''App'' (js_minus (now ?w2) (now ?w)) =
      ''Slow effect: useEffect App.tsx:5 in App took 8ms''"
    by (simp add: js_minus_threshold slow_effect_message_def math_round_def show_int_def
        show_nat_digit digit_char_def)
  show ?thesis
    unfolding run took scenario wording
    by (simp add: cd outputs_def tracer_log_def log_effect_run_def install_tracker_def
        initial_world_def effect_run_message_def reason_text_def)
qed

text \<open>
  Claim C7 as stated fails in three cases, each with a body of 12 ms: without
  \<^verbatim>\<open>performance\<close> only the \<open>effect-run\<close> entry is printed; a body that throws
  leaves no entry; and at the clock reading 0 the guard \<^verbatim>\<open>startTime > 0\<close> skips the
  check.
\<close>

theorem slow_effect_unreported:
  "outputs (snd (snd (trackedUseEffect False (busy_body 12) (Some []) ''App.tsx:5'' ''App''
      (Some []) initial_refs initial_world)))
     = ([], [], [Console_info ''useEffect App.tsx:5 in App ran because it was initially mounted''])
   \<and> outputs (snd (snd (trackedUseEffect True (throwing_body 12 (JStr ''boom'')) (Some [])
        ''App.tsx:5'' ''App'' (Some []) initial_refs initial_world))) = ([], [], [])
   \<and> now (snd (snd (trackedUseEffect True (throwing_body 12 (JStr ''boom'')) (Some [])
        ''App.tsx:5'' ''App'' (Some []) initial_refs initial_world))) - now initial_world = 12
   \<and> map etype (logBuffer (snd (snd (trackedUseEffect True (busy_body 12) (Some [])
        ''App.tsx:5'' ''App'' (Some []) initial_refs (initial_world\<lparr>now := 0\<rparr>))))) = [EffectRun]"
  by (simp add: trackedUseEffect_def trackedEffectImpl_def run_tracked_def throwing_body_def
      busy_body_def install_tracker_def initial_world_def initial_refs_def outputs_def Let_def
      slow_effect_check_def log_effect_run_def tracer_log_def scheduleFlush_def
      effect_changedDeps_def effect_run_message_def reason_text_def)

section \<open>The tracked state setter\<close>

text \<open>
  Claim C5. A call of the wrapper of a tracked state hook computes the new value (the
  argument, or the updater applied to the mirrored value). It logs one
  \<open>state-change\<close> entry, worded from the current tracker, and sets that tracker's flag,
  if and only if the global slot holds a tracker and the new value differs from the
  mirrored one under \<^verbatim>\<open>!==\<close>; otherwise the outputs and the trackers stay as they
  were. In every case the mirrored value becomes the new value and the call is forwarded,
  with the argument as it was received, to the raw setter the closure captured, which for a
  wrapper built by \<open>trackedUseState\<close> is the setter React returned.
\<close>

theorem state_setter_behaviour:
  "(let cl = stateClosures w wrapper;
        newValue = (case valueOrUpdater of Updater f \<Rightarrow> f (sc_value cl) | Value v \<Rightarrow> v);
        w' = stateWrapper hp wrapper valueOrUpdater w
    in sc_value (stateClosures w' wrapper) = newValue
       \<and> rawSetStateCalls w' = rawSetStateCalls w @ [(sc_rawSetState cl, valueOrUpdater)]
       \<and> sc_rawSetState (stateClosures w' fn) = sc_rawSetState (stateClosures w fn)
       \<and> (effectTracker w = Some a \<and> strict_neq (sc_value cl) newValue \<longrightarrow>
            outputs w' =
              outputs (tracer_log hp
                         (state_change_message ''useState'' (trackers w a) (m_stateName (sc_meta cl)))
                         StateChange (tk_location (trackers w a))
                         (count_key (tk_location (trackers w a)) (tk_componentName (trackers w a))) w)
            \<and> tk_stateWasSet (trackers w' a))
       \<and> (effectTracker w = None \<or> \<not> strict_neq (sc_value cl) newValue \<longrightarrow>
            outputs w' = outputs w \<and> trackers w' = trackers w))
   \<and> outputs (tracer_log hp msg StateChange loc key v) \<noteq> outputs v
   \<and> state_change_message ''useState'' tr nm =
       ''useEffect '' @ tk_location tr @ '' in '' @ tk_componentName tr @ '' changed useState ''
         @ dquote @ nm @ dquote @ '' because '' @ reason_text (tk_changedDeps tr)
   \<and> (stateTrackerMap v raw = None \<longrightarrow>
        (let built = trackedUseState initialValue loc cn stateName (state, raw) v
         in sc_rawSetState (stateClosures (snd built) (snd (fst built))) = raw
            \<and> sc_value (stateClosures (snd built) (snd (fst built))) =
                (case initialValue of InitFn f \<Rightarrow> f () | InitValue x \<Rightarrow> x)))"
proof -
  have wording: "state_change_message ''useState'' tr nm =
       ''useEffect '' @ tk_location tr @ '' in '' @ tk_componentName tr @ '' changed useState ''
         @ dquote @ nm @ dquote @ '' because '' @ reason_text (tk_changedDeps tr)"
    by (simp add: state_change_message_def)
  have built: "stateTrackerMap v raw = None \<Longrightarrow>
        (let built = trackedUseState initialValue loc cn stateName (state, raw) v
         in sc_rawSetState (stateClosures (snd built) (snd (fst built))) = raw
            \<and> sc_value (stateClosures (snd built) (snd (fst built))) =
                (case initialValue of InitFn f \<Rightarrow> f () | InitValue x \<Rightarrow> x))"
    by (simp add: trackedUseState_def Let_def)
  have call: "(let cl = stateClosures w wrapper;
        newValue = (case valueOrUpdater of Updater f \<Rightarrow> f (sc_value cl) | Value v \<Rightarrow> v);
        w' = stateWrapper hp wrapper valueOrUpdater w
    in sc_value (stateClosures w' wrapper) = newValue
       \<and> rawSetStateCalls w' = rawSetStateCalls w @ [(sc_rawSetState cl, valueOrUpdater)]
       \<and> sc_rawSetState (stateClosures w' fn) = sc_rawSetState (stateClosures w fn)
       \<and> (effectTracker w = Some a \<and> strict_neq (sc_value cl) newValue \<longrightarrow>
            outputs w' =
              outputs (tracer_log hp
                         (state_change_message ''useState'' (trackers w a) (m_stateName (sc_meta cl)))
                         StateChange (tk_location (trackers w a))
                         (count_key (tk_location (trackers w a)) (tk_componentName (trackers w a))) w)
            \<and> tk_stateWasSet (trackers w' a))
       \<and> (effectTracker w = None \<or> \<not> strict_neq (sc_value cl) newValue \<longrightarrow>
            outputs w' = outputs w \<and> trackers w' = trackers w))"
    by (cases "effectTracker w") (auto simp: stateWrapper_def Let_def)
  show ?thesis
    apply (intro conjI)
       apply (rule call)
      apply (rule tracer_log_outputs_changes)
     apply (rule wording)
    apply (rule impI)
    apply (erule built)
    done
qed

text \<open>
  The theorem at a state \<open>count\<close> initialised to 0 and set from inside a mounting effect:
  setting it to 1 prints the entry, setting it to 0 prints nothing and is forwarded all the
  same.
\<close>

theorem state_setter_behaviour_witness:
  "console (stateWrapper False 0 (Value (JNum 1))
     (install_tracker ''App.tsx:5'' ''App'' None (Some [])
        (snd (trackedUseState (InitValue (JNum 0)) ''App.tsx:3'' ''App'' ''count'' (JNum 0, 5)
                initial_world))))
     = [Console_log (''useEffect App.tsx:5 in App changed useState '' @ dquote @ ''count''
          @ dquote @ '' because it was initially mounted'')]
   \<and> console (stateWrapper False 0 (Value (JNum 0))
     (install_tracker ''App.tsx:5'' ''App'' None (Some [])
        (snd (trackedUseState (InitValue (JNum 0)) ''App.tsx:3'' ''App'' ''count'' (JNum 0, 5)
                initial_world)))) = []
   \<and> rawSetStateCalls (stateWrapper False 0 (Value (JNum 0))
     (install_tracker ''App.tsx:5'' ''App'' None (Some [])
        (snd (trackedUseState (InitValue (JNum 0)) ''App.tsx:3'' ''App'' ''count'' (JNum 0, 5)
                initial_world)))) = [(5, Value (JNum 0))]"
proof -
  define w0 where "w0 = snd (trackedUseState (InitValue (JNum 0)) ''App.tsx:3'' ''App'' ''count''
    (JNum 0, 5) initial_world)"
  define w where "w = install_tracker ''App.tsx:5'' ''App'' None (Some []) w0"
  have facts: "effectTracker w = Some 0" "sc_value (stateClosures w 0) = JNum 0"
    "sc_rawSetState (stateClosures w 0) = 5" "m_stateName (sc_meta (stateClosures w 0)) = ''count''"
    "trackers w 0 = \<lparr>tk_location = ''App.tsx:5'', tk_componentName = ''App'',
        tk_changedDeps = None, tk_depNames = Some [], tk_stateWasSet = False\<rparr>"
    "console w = []" "customLogger w = False" "rawSetStateCalls w = []" "delivered w = []"
    "logBuffer w = []"
    by (simp_all add: w_def w0_def install_tracker_def trackedUseState_def initial_world_def Let_def)
  note changed = state_setter_behaviour [where w = w and wrapper = 0
      and valueOrUpdater = "Value (JNum 1)" and hp = False and a = 0,
      unfolded Let_def, THEN conjunct1]
  note same = state_setter_behaviour [where w = w and wrapper = 0
      and valueOrUpdater = "Value (JNum 0)" and hp = False and a = 0,
      unfolded Let_def, THEN conjunct1]
  have c1: "outputs (stateWrapper False 0 (Value (JNum 1)) w) =
      ([], logBuffer w, [Console_log (''useEffect App.tsx:5 in App changed useState '' @ dquote
          @ ''count'' @ dquote @ '' because it was initially mounted'')])"
    using changed [THEN conjunct2, THEN conjunct2, THEN conjunct2, THEN conjunct1]
    by (simp add: facts outputs_def tracer_log_def state_change_message_def reason_text_def)
  have c2: "outputs (stateWrapper False 0 (Value (JNum 0)) w) = outputs w"
    using same [THEN conjunct2, THEN conjunct2, THEN conjunct2, THEN conjunct2]
    by (simp add: facts)
  have c3: "rawSetStateCalls (stateWrapper False 0 (Value (JNum 0)) w) = [(5, Value (JNum 0))]"
    using same [THEN conjunct2, THEN conjunct1] by (simp add: facts)
  from c1 c2 c3 show ?thesis
    unfolding w_def [symmetric] w0_def [symmetric] by (simp add: outputs_def facts)
qed

section \<open>The wrapper cache\<close>

text \<open>
  Claim C8. Take a call of \<open>trackedUseState\<close> that sees the setter identity \<open>raw\<close>,
  then any sequence of events of the module, then another call that sees \<open>raw\<close>, with
  whatever other arguments. The second call returns the wrapper the first returned and
  leaves the world as it found it: nothing is built or rewritten. When the first call is
  the first sight of \<open>raw\<close> it builds exactly one wrapper, the next function reference,
  and adds exactly one cache entry, under \<open>raw\<close>; when \<open>raw\<close> is already cached it
  returns the cached wrapper and changes nothing. The same holds of
  \<open>trackedUseReducer\<close> and the dispatch identity.
\<close>

theorem wrapper_cache_idempotent:
  "(let first = trackedUseState i1 l1 c1 n1 (s1, raw) w;
        later = apply_events hp evs (snd first);
        again = trackedUseState i2 l2 c2 n2 (s2, raw) later
    in snd (fst again) = snd (fst first) \<and> fst (fst again) = s2 \<and> snd again = later
       \<and> (stateTrackerMap w raw = None \<longrightarrow>
            snd (fst first) = nextFn w \<and> nextFn (snd first) = nextFn w + 1
            \<and> stateTrackerMap (snd first) =
                (stateTrackerMap w)(raw \<mapsto> \<lparr>t_wrapper = nextFn w,
                   t_meta = \<lparr>m_location = l1, m_componentName = c1, m_stateName = n1\<rparr>\<rparr>))
       \<and> (stateTrackerMap w raw = Some trk \<longrightarrow> first = ((s1, t_wrapper trk), w)))
   \<and> (let first = trackedUseReducer r1 l1 c1 n1 (s1, raw) w;
        later = apply_events hp evs (snd first);
        again = trackedUseReducer r2 l2 c2 n2 (s2, raw) later
    in snd (fst again) = snd (fst first) \<and> fst (fst again) = s2 \<and> snd again = later
       \<and> (reducerTrackerMap w raw = None \<longrightarrow>
            snd (fst first) = nextFn w \<and> nextFn (snd first) = nextFn w + 1
            \<and> reducerTrackerMap (snd first) =
                (reducerTrackerMap w)(raw \<mapsto> \<lparr>t_wrapper = nextFn w,
                   t_meta = \<lparr>m_location = l1, m_componentName = c1, m_stateName = n1\<rparr>\<rparr>))
       \<and> (reducerTrackerMap w raw = Some trk \<longrightarrow> first = ((s1, t_wrapper trk), w)))"
proof -
  have "\<exists>t. stateTrackerMap (snd (trackedUseState i1 l1 c1 n1 (s1, raw) w)) raw = Some t
      \<and> snd (fst (trackedUseState i1 l1 c1 n1 (s1, raw) w)) = t_wrapper t"
    by (cases "stateTrackerMap w raw") (simp_all add: trackedUseState_def Let_def)
  then obtain t where t: "stateTrackerMap (snd (trackedUseState i1 l1 c1 n1 (s1, raw) w)) raw = Some t"
    "snd (fst (trackedUseState i1 l1 c1 n1 (s1, raw) w)) = t_wrapper t"
    by blast
  from t(1) have later:
    "stateTrackerMap (apply_events hp evs (snd (trackedUseState i1 l1 c1 n1 (s1, raw) w))) raw = Some t"
    using events_keep_caches(2) by blast
  have state: "trackedUseState i2 l2 c2 n2 (s2, raw)
      (apply_events hp evs (snd (trackedUseState i1 l1 c1 n1 (s1, raw) w))) =
    ((s2, snd (fst (trackedUseState i1 l1 c1 n1 (s1, raw) w))),
     apply_events hp evs (snd (trackedUseState i1 l1 c1 n1 (s1, raw) w)))"
    by (simp add: trackedUseState_def [of i2] later t(2))
  have "\<exists>u. reducerTrackerMap (snd (trackedUseReducer r1 l1 c1 n1 (s1, raw) w)) raw = Some u
      \<and> snd (fst (trackedUseReducer r1 l1 c1 n1 (s1, raw) w)) = t_wrapper u"
    by (cases "reducerTrackerMap w raw") (simp_all add: trackedUseReducer_def Let_def)
  then obtain u where u: "reducerTrackerMap (snd (trackedUseReducer r1 l1 c1 n1 (s1, raw) w)) raw = Some u"
    "snd (fst (trackedUseReducer r1 l1 c1 n1 (s1, raw) w)) = t_wrapper u"
    by blast
  from u(1) have later':
    "reducerTrackerMap (apply_events hp evs (snd (trackedUseReducer r1 l1 c1 n1 (s1, raw) w))) raw = Some u"
    using events_keep_caches(2) by blast
  have reducer: "trackedUseReducer r2 l2 c2 n2 (s2, raw)
      (apply_events hp evs (snd (trackedUseReducer r1 l1 c1 n1 (s1, raw) w))) =
    ((s2, snd (fst (trackedUseReducer r1 l1 c1 n1 (s1, raw) w))),
     apply_events hp evs (snd (trackedUseReducer r1 l1 c1 n1 (s1, raw) w)))"
    by (simp add: trackedUseReducer_def [of r2] later' u(2))
  have first: "stateTrackerMap w raw = None \<Longrightarrow>
      trackedUseState i1 l1 c1 n1 (s1, raw) w =
        ((s1, nextFn w),
         w\<lparr>nextFn := nextFn w + 1,
           stateClosures := (stateClosures w)
             (nextFn w := \<lparr>sc_rawSetState = raw,
                sc_meta = \<lparr>m_location = l1, m_componentName = c1, m_stateName = n1\<rparr>,
                sc_value = (case i1 of InitFn f \<Rightarrow> f () | InitValue v \<Rightarrow> v)\<rparr>),
           stateTrackerMap := (stateTrackerMap w)(raw \<mapsto> \<lparr>t_wrapper = nextFn w,
             t_meta = \<lparr>m_location = l1, m_componentName = c1, m_stateName = n1\<rparr>\<rparr>)\<rparr>)"
    by (simp add: trackedUseState_def Let_def)
  have first': "reducerTrackerMap w raw = None \<Longrightarrow>
      trackedUseReducer r1 l1 c1 n1 (s1, raw) w =
        ((s1, nextFn w),
         w\<lparr>nextFn := nextFn w + 1,
           reducerClosures := (reducerClosures w)
             (nextFn w := \<lparr>rc_rawDispatch = raw,
                rc_meta = \<lparr>m_location = l1, m_componentName = c1, m_stateName = n1\<rparr>,
                rc_reducer = r1, rc_trackedState = s1\<rparr>),
           reducerTrackerMap := (reducerTrackerMap w)(raw \<mapsto> \<lparr>t_wrapper = nextFn w,
             t_meta = \<lparr>m_location = l1, m_componentName = c1, m_stateName = n1\<rparr>\<rparr>)\<rparr>)"
    by (simp add: trackedUseReducer_def Let_def)
  have seen: "stateTrackerMap w raw = Some trk \<Longrightarrow>
      trackedUseState i1 l1 c1 n1 (s1, raw) w = ((s1, t_wrapper trk), w)"
    by (simp add: trackedUseState_def)
  have seen': "reducerTrackerMap w raw = Some trk \<Longrightarrow>
      trackedUseReducer r1 l1 c1 n1 (s1, raw) w = ((s1, t_wrapper trk), w)"
    by (simp add: trackedUseReducer_def)
  show ?thesis
    unfolding Let_def state reducer
    using first first' seen seen' by simp
qed

text \<open>
  The theorem at the first sight of the identity 5 in the freshly loaded module, followed
  by a call of the wrapper, an effect whose body calls it again, and the flush timer: the
  next render gets the wrapper 0 built at first. Likewise for a reducer.
\<close>

theorem wrapper_cache_idempotent_witness:
  "snd (fst (trackedUseState (InitValue (JNum 9)) ''App.tsx:3'' ''App'' ''count'' (JNum 2, 5)
     (apply_events False
        [CallSetter 0 (Value (JNum 1)),
         RunEffect UseEffect (Some []) ''App.tsx:5'' ''App'' (Some []) initial_refs
           [CallSetter 0 (Value (JNum 2))] (Inr JUndefined),
         TimerFires]
        (snd (trackedUseState (InitValue (JNum 0)) ''App.tsx:3'' ''App'' ''count'' (JNum 0, 5)
                initial_world))))) = 0
   \<and> snd (fst (trackedUseReducer replace_reducer ''App.tsx:3'' ''App'' ''count'' (JNum 2, 5)
     (apply_events False
        [CallDispatch 0 (JNum 1), TimerFires]
        (snd (trackedUseReducer replace_reducer ''App.tsx:3'' ''App'' ''count'' (JNum 0, 5)
                initial_world))))) = 0"
proof -
  have none: "stateTrackerMap initial_world 5 = None" "reducerTrackerMap initial_world 5 = None"
    "nextFn initial_world = 0"
    by (simp_all add: initial_world_def)
  note st = wrapper_cache_idempotent [where w = initial_world and raw = 5
      and ?i1.0 = "InitValue (JNum 0)" and ?l1.0 = "''App.tsx:3''" and ?c1.0 = "''App''"
      and ?n1.0 = "''count''" and ?s1.0 = "JNum 0" and hp = False
      and ?i2.0 = "InitValue (JNum 9)" and ?l2.0 = "''App.tsx:3''" and ?c2.0 = "''App''"
      and ?n2.0 = "''count''" and ?s2.0 = "JNum 2"
      and evs = "[CallSetter 0 (Value (JNum 1)),
         RunEffect UseEffect (Some []) ''App.tsx:5'' ''App'' (Some []) initial_refs
           [CallSetter 0 (Value (JNum 2))] (Inr JUndefined),
         TimerFires]", unfolded Let_def, THEN conjunct1]
  note rd = wrapper_cache_idempotent [where w = initial_world and raw = 5
      and ?r1.0 = replace_reducer and ?l1.0 = "''App.tsx:3''" and ?c1.0 = "''App''"
      and ?n1.0 = "''count''" and ?s1.0 = "JNum 0" and hp = False
      and ?r2.0 = replace_reducer and ?l2.0 = "''App.tsx:3''" and ?c2.0 = "''App''"
      and ?n2.0 = "''count''" and ?s2.0 = "JNum 2"
      and evs = "[CallDispatch 0 (JNum 1), TimerFires]", unfolded Let_def, THEN conjunct2]
  note st_same = st [THEN conjunct1]
  note st_first = st [THEN conjunct2, THEN conjunct2, THEN conjunct2, THEN conjunct1, THEN mp,
      OF none(1), THEN conjunct1]
  note rd_same = rd [THEN conjunct1]
  note rd_first = rd [THEN conjunct2, THEN conjunct2, THEN conjunct2, THEN conjunct1, THEN mp,
      OF none(2), THEN conjunct1]
  show ?thesis
    unfolding st_same rd_same st_first rd_first none(3) by simp
qed

section \<open>Interaction reports\<close>

text \<open>
  Claim C9. The interaction observer acts on a batch of reports as a sequence of passes,
  one per selected report. The reports selected carry, one each and in the order of first
  appearance, the distinct identifiers of the batch that are neither missing nor zero;
  each selected report belongs to the batch and no report of the batch with the same
  identifier has a greater duration. Reports whose identifier is missing or zero change
  nothing: the batch without them has the same effect. A pass partitions the buffer by
  the interval from \<open>processingStart\<close> to \<open>processingEnd\<close> of the selected report,
  bounds included, and the banner of the group it prints carries that report's name.
\<close>

theorem interaction_selection:
  "(let G = collect_interactions raws [];
        sel = concat (map (\<lambda>grp. case worst_of (snd grp) of None \<Rightarrow> [] | Some x \<Rightarrow> [x]) G)
    in inpObserver raws w = fold inpPass sel w
       \<and> map interactionId sel = map (\<lambda>grp. Some (fst grp)) G
       \<and> distinct (map fst G)
       \<and> fst ` set G = {k. k \<noteq> 0 \<and> Some k \<in> interactionId ` set raws}
       \<and> (\<forall>x \<in> set sel. x \<in> set raws
             \<and> (\<forall>r \<in> set raws. interactionId r = interactionId x \<longrightarrow> duration r \<le> duration x)))
   \<and> inpObserver raws w =
       inpObserver (filter (\<lambda>r. interactionId r \<noteq> None \<and> interactionId r \<noteq> Some 0) raws) w
   \<and> console (inpPass worst w) =
       console w
       @ printEntries (filter (\<lambda>x. etype x \<noteq> EffectRun)
           (filter (\<lambda>x. time x < processingStart worst) (logBuffer w)))
       @ print_group (''Slow Interaction: '' @ name worst
            @ '' ('' @ show_int (math_round (duration worst)) @ ''ms)'')
           (filter (\<lambda>x. \<not> time x < processingStart worst \<and> time x \<le> processingEnd worst)
              (logBuffer w))
   \<and> logBuffer (inpPass worst w) =
       filter (\<lambda>x. \<not> time x < processingStart worst \<and> \<not> time x \<le> processingEnd worst)
         (logBuffer w)"
proof -
  have skip: "inpObserver raws w =
       inpObserver (filter (\<lambda>r. interactionId r \<noteq> None \<and> interactionId r \<noteq> Some 0) raws) w"
    unfolding inpObserver_def by (subst collect_skips_anonymous) (rule refl)
  have d: "distinct (map fst (collect_interactions raws []))"
    by (rule collect_distinct) simp
  show ?thesis
    unfolding Let_def
    apply (intro conjI ballI)
           apply (simp add: inpObserver_def fold_inpGroupPass)
          apply (rule selected_ids [OF collected_groups_wellformed])
         apply (rule d)
        apply (rule collected_keys)
       apply (erule selected_greatest [THEN conjunct1])
      apply (drule selected_greatest, blast)
     apply (rule skip)
    apply (rule inpPass_eq(1))
    apply (rule inpPass_eq(2))
    done
qed

text \<open>
  The theorem at a batch of four reports, a \<open>pointerdown\<close> of 250 ms and a \<open>click\<close> of
  320 ms under the identifier 7, one report with identifier 0 and one without: the one
  group printed is the click's.
\<close>

theorem interaction_selection_witness:
  "console (inpObserver
      [sample_report (Some 0) ''keydown'' 900 0 200,
       sample_report (Some 7) ''pointerdown'' 250 5 10,
       sample_report (Some 7) ''click'' 320 5 10,
       sample_report None ''mousemove'' 999 0 200]
      (initial_world\<lparr>logBuffer := [sample_entry StateChange 6]\<rparr>))
   = [Console_groupCollapsed (''Slow Interaction: click (320ms) '' @ em_dash @ '' 1 effect''
        @ arrow @ ''setState''),
      Console_log ''[state-change] m'',
      Console_groupEnd]
   \<and> duration (sample_report (Some 7) ''pointerdown'' 250 5 10)
       \<le> duration (sample_report (Some 7) ''click'' 320 5 10)"
proof -
  let ?raws = "[sample_report (Some 0) ''keydown'' 900 0 200,
       sample_report (Some 7) ''pointerdown'' 250 5 10,
       sample_report (Some 7) ''click'' 320 5 10,
       sample_report None ''mousemove'' 999 0 200]"
  let ?w = "initial_world\<lparr>logBuffer := [sample_entry StateChange 6]\<rparr>"
  let ?click = "sample_report (Some 7) ''click'' 320 5 10"
  note th = interaction_selection [where raws = ?raws and w = ?w and worst = ?click,
      unfolded Let_def]
  have sel: "concat (map (\<lambda>grp. case worst_of (snd grp) of None \<Rightarrow> [] | Some x \<Rightarrow> [x])
               (collect_interactions ?raws [])) = [?click]"
    by (simp add: sample_report_def)
  note run = th [THEN conjunct1, THEN conjunct1, unfolded sel]
  note greatest = th [THEN conjunct1, THEN conjunct2, THEN conjunct2, THEN conjunct2,
      THEN conjunct2, unfolded sel]
  note shown = th [THEN conjunct2, THEN conjunct2, THEN conjunct1]
  have le: "duration (sample_report (Some 7) ''pointerdown'' 250 5 10) \<le> duration ?click"
    using greatest by (simp add: sample_report_def)
  have "console (inpObserver ?raws ?w) = console (inpPass ?click ?w)"
    unfolding run by simp
  also have "\<dots> = [Console_groupCollapsed (''Slow Interaction: click (320ms) '' @ em_dash
        @ '' 1 effect'' @ arrow @ ''setState''),
      Console_log ''[state-change] m'',
      Console_groupEnd]"
    unfolding shown
    by (simp add: sample_report_def sample_entry_def initial_world_def print_group_def
        summary_parts_def printEntries_def format_entry_def show_int_def math_round_def
        show_nat_320 show_nat_1)
  finally show ?thesis using le by simp
qed

section \<open>Draining the buffer\<close>

text \<open>
  Claim C3, amended. Each drain disposes of every buffered entry in exactly one way. A
  long-task pass prints the entries before the window and, in a group, those inside it,
  and keeps those after it: the three lists together are the buffer, entry for entry. An
  interaction pass does the same, except that the \<open>effect-run\<close> entries before the
  window are discarded unprinted. The fallback flush prints every entry that is not an
  \<open>effect-run\<close> entry, discards the \<open>effect-run\<close> entries unprinted, and leaves the
  buffer empty. The printer puts out one console call per entry it is given, in order,
  carrying that entry's type tag and message, so no entry is printed twice; flushing an
  empty buffer changes nothing.
\<close>

theorem drain_accounting:
  "(let buf = logBuffer w;
        before = filter (\<lambda>x. time x < startTime task) buf;
        during = filter (\<lambda>x. \<not> time x < startTime task
                               \<and> time x \<le> startTime task + duration task) buf;
        after = filter (\<lambda>x. \<not> time x < startTime task
                              \<and> \<not> time x \<le> startTime task + duration task) buf
    in console (longTaskPass task w) =
         console w @ printEntries before
         @ print_group (''Long Task ('' @ show_int (math_round (duration task)) @ ''ms)'') during
       \<and> logBuffer (longTaskPass task w) = after
       \<and> mset before + mset during + mset after = mset buf)
   \<and> (let buf = logBuffer w;
        before = filter (\<lambda>x. time x < processingStart worst) buf;
        printed = filter (\<lambda>x. etype x \<noteq> EffectRun) before;
        dropped = filter (\<lambda>x. etype x = EffectRun) before;
        during = filter (\<lambda>x. \<not> time x < processingStart worst
                               \<and> time x \<le> processingEnd worst) buf;
        after = filter (\<lambda>x. \<not> time x < processingStart worst
                              \<and> \<not> time x \<le> processingEnd worst) buf
    in console (inpPass worst w) =
         console w @ printEntries printed
         @ print_group (''Slow Interaction: '' @ name worst
              @ '' ('' @ show_int (math_round (duration worst)) @ ''ms)'') during
       \<and> logBuffer (inpPass worst w) = after
       \<and> mset printed + mset dropped + mset during + mset after = mset buf)
   \<and> (let buf = logBuffer w;
        printed = filter (\<lambda>x. etype x \<noteq> EffectRun) buf;
        dropped = filter (\<lambda>x. etype x = EffectRun) buf
    in console (flushBuffer w) = console w @ printEntries printed
       \<and> logBuffer (flushBuffer w) = []
       \<and> mset printed + mset dropped = mset buf)
   \<and> length (printEntries es) = length es
   \<and> (i < length es \<longrightarrow>
        (\<exists>ordinal. printEntries es ! i =
           printSingle (etype (es ! i))
             (''['' @ type_name (etype (es ! i)) @ '']'' @ ordinal @ '' '' @ message (es ! i))))
   \<and> print_group title es =
       (if es = [] then []
        else Console_groupCollapsed (title @ '' '' @ em_dash @ '' '' @ join '', '' (summary_parts es))
             # printEntries es @ [Console_groupEnd])
   \<and> (logBuffer w = [] \<longrightarrow> flushBuffer w = w)"
proof -
  have long: "mset (filter (\<lambda>x. time x < startTime task) (logBuffer w))
      + mset (filter (\<lambda>x. \<not> time x < startTime task
                            \<and> time x \<le> startTime task + duration task) (logBuffer w))
      + mset (filter (\<lambda>x. \<not> time x < startTime task
                            \<and> \<not> time x \<le> startTime task + duration task) (logBuffer w))
      = mset (logBuffer w)"
    by (rule mset_three_way)
  have inp: "mset (filter (\<lambda>x. etype x \<noteq> EffectRun)
                 (filter (\<lambda>x. time x < processingStart worst) (logBuffer w)))
      + mset (filter (\<lambda>x. etype x = EffectRun)
                 (filter (\<lambda>x. time x < processingStart worst) (logBuffer w)))
      + mset (filter (\<lambda>x. \<not> time x < processingStart worst
                            \<and> time x \<le> processingEnd worst) (logBuffer w))
      + mset (filter (\<lambda>x. \<not> time x < processingStart worst
                            \<and> \<not> time x \<le> processingEnd worst) (logBuffer w))
      = mset (logBuffer w)"
    unfolding mset_two_way [of "\<lambda>x. etype x = EffectRun"] by (rule mset_three_way)
  have flush: "mset (filter (\<lambda>x. etype x \<noteq> EffectRun) (logBuffer w))
      + mset (filter (\<lambda>x. etype x = EffectRun) (logBuffer w)) = mset (logBuffer w)"
    by (rule mset_two_way)
  have idle: "logBuffer w = [] \<Longrightarrow> flushBuffer w = w"
    by (simp add: flushBuffer_def printEntries_def)
  show ?thesis
    unfolding Let_def
    apply (intro conjI impI)
                apply (rule longTaskPass_eq(1))
               apply (rule longTaskPass_eq(2))
              apply (rule long)
             apply (rule inpPass_eq(1))
            apply (rule inpPass_eq(2))
           apply (rule inp)
          apply (rule flushBuffer_eq(1))
         apply (rule flushBuffer_eq(2))
        apply (rule flush)
       apply (rule length_printEntries)
      apply (erule printEntries_nth)
     apply (simp add: print_group_def)
    apply (erule idle)
    done
qed

text \<open>
  The theorem at the freshly loaded module, whose buffer is empty, and at the second of
  two entries handed to the printer.
\<close>

theorem drain_accounting_witness:
  "flushBuffer initial_world = initial_world
   \<and> (\<exists>ordinal. printEntries [sample_entry StateChange 1, sample_entry EffectRun 2] ! 1 =
        Console_info (''[effect-run]'' @ ordinal @ '' m''))"
proof -
  have empty: "logBuffer initial_world = []"
    by (simp add: initial_world_def)
  have second: "(1::nat) < length [sample_entry StateChange 1, sample_entry EffectRun 2]"
    by simp
  note th = drain_accounting [where w = initial_world
      and es = "[sample_entry StateChange 1, sample_entry EffectRun 2]" and i = 1]
  note idle = th [THEN conjunct2, THEN conjunct2, THEN conjunct2, THEN conjunct2, THEN conjunct2,
      THEN conjunct2, THEN mp, OF empty]
  note line = th [THEN conjunct2, THEN conjunct2, THEN conjunct2, THEN conjunct2, THEN conjunct1,
      THEN mp, OF second]
  from line have "\<exists>ordinal. printEntries [sample_entry StateChange 1, sample_entry EffectRun 2] ! 1 =
        Console_info (''[effect-run]'' @ ordinal @ '' m'')"
    by (simp add: sample_entry_def)
  with idle show ?thesis by simp
qed

text \<open>
  Claim C3 as stated fails: an \<open>effect-run\<close> entry leaves the buffer without being
  printed or kept, in the fallback flush and before the window of an interaction pass.
\<close>

theorem effect_run_entries_discarded:
  "logBuffer (flushBuffer (initial_world\<lparr>logBuffer := [sample_entry EffectRun 1]\<rparr>)) = []
   \<and> console (flushBuffer (initial_world\<lparr>logBuffer := [sample_entry EffectRun 1]\<rparr>)) = []
   \<and> logBuffer (inpPass (sample_report (Some 7) ''click'' 320 5 10)
        (initial_world\<lparr>logBuffer := [sample_entry EffectRun 1]\<rparr>)) = []
   \<and> console (inpPass (sample_report (Some 7) ''click'' 320 5 10)
        (initial_world\<lparr>logBuffer := [sample_entry EffectRun 1]\<rparr>)) = []"
  by (simp add: flushBuffer_eq inpPass_eq sample_entry_def sample_report_def initial_world_def
      printEntries_def print_group_def)

section \<open>The entries before a window\<close>

text \<open>
  Claim C1, amended. For every interaction window, the entries stamped strictly before the
  window start are printed at once, one console call each, with the \<open>effect-run\<close>
  entries left out. For every long-task window, what is printed at once is a part of the
  entries stamped strictly before the window start, in buffer order, that contains all of
  them that are not \<open>effect-run\<close> entries.
\<close>

theorem before_partition_print:
  "console (inpPass worst w) =
     console w
     @ printEntries (filter (\<lambda>x. etype x \<noteq> EffectRun)
         (filter (\<lambda>x. time x < processingStart worst) (logBuffer w)))
     @ print_group (''Slow Interaction: '' @ name worst
          @ '' ('' @ show_int (math_round (duration worst)) @ ''ms)'')
         (filter (\<lambda>x. \<not> time x < processingStart worst \<and> time x \<le> processingEnd worst)
            (logBuffer w))
   \<and> (\<exists>printed.
        console (longTaskPass task w) =
          console w @ printEntries printed
          @ print_group (''Long Task ('' @ show_int (math_round (duration task)) @ ''ms)'')
              (filter (\<lambda>x. \<not> time x < startTime task
                             \<and> time x \<le> startTime task + duration task) (logBuffer w))
        \<and> subseq printed (filter (\<lambda>x. time x < startTime task) (logBuffer w))
        \<and> filter (\<lambda>x. etype x \<noteq> EffectRun) printed =
            filter (\<lambda>x. etype x \<noteq> EffectRun)
              (filter (\<lambda>x. time x < startTime task) (logBuffer w)))
   \<and> length (printEntries es) = length es"
proof -
  have "\<exists>printed.
        console (longTaskPass task w) =
          console w @ printEntries printed
          @ print_group (''Long Task ('' @ show_int (math_round (duration task)) @ ''ms)'')
              (filter (\<lambda>x. \<not> time x < startTime task
                             \<and> time x \<le> startTime task + duration task) (logBuffer w))
        \<and> subseq printed (filter (\<lambda>x. time x < startTime task) (logBuffer w))
        \<and> filter (\<lambda>x. etype x \<noteq> EffectRun) printed =
            filter (\<lambda>x. etype x \<noteq> EffectRun)
              (filter (\<lambda>x. time x < startTime task) (logBuffer w))"
    by (rule exI [of _ "filter (\<lambda>x. time x < startTime task) (logBuffer w)"])
      (simp add: longTaskPass_eq)
  then show ?thesis
    by (simp add: inpPass_eq length_printEntries)
qed

text \<open>
  Claim C1 as stated fails on both paths: an \<open>effect-run\<close> entry stamped before the
  window is left out of the print of an interaction pass, and printed by a long-task pass.
\<close>

theorem before_partition_effect_runs:
  "console (inpPass (sample_report (Some 7) ''click'' 320 5 10)
      (initial_world\<lparr>logBuffer := [sample_entry EffectRun 1]\<rparr>)) = []
   \<and> console (longTaskPass (sample_task 5 60)
      (initial_world\<lparr>logBuffer := [sample_entry EffectRun 1]\<rparr>))
     = [Console_info ''[effect-run] m'']"
  by (simp add: longTaskPass_eq inpPass_eq sample_entry_def sample_report_def sample_task_def
      initial_world_def printEntries_def print_group_def format_entry_def)

end
